theory Spec2Isabelle
  imports Complex_Main "HOL-Library.Word" "HOL-Library.Sublist" "HOL-Library.AList"
begin

section \<open>JavaScript strings\<close>

text \<open>
  A JavaScript string is a sequence of 16-bit UTF-16 code units.  The error texts of the
  service are not ASCII, and the credential normalizer looks at U+FEFF and U+00A0, so the
  embedding keeps code units rather than bytes.
\<close>

type_synonym jschar = "16 word"
type_synonym jsstring = "jschar list"

definition js :: "string \<Rightarrow> jsstring" where
  "js s = map (\<lambda>c. of_nat (of_char c)) s"

text \<open>\<^verbatim>\<open>String.prototype.includes\<close>: the pattern occurs at some position.\<close>

fun js_includes :: "jsstring \<Rightarrow> jsstring \<Rightarrow> bool" where
  "js_includes [] pat = (pat = [])"
| "js_includes (c # cs) pat = (prefix pat (c # cs) \<or> js_includes cs pat)"

text \<open>
  The characters matched by \<^verbatim>\<open>\s\<close> in a regular expression and removed by
  \<^verbatim>\<open>String.prototype.trim\<close>: ECMAScript WhiteSpace and LineTerminator.
\<close>

definition isWhiteSpace :: "jschar \<Rightarrow> bool" where
  "isWhiteSpace c \<longleftrightarrow>
     c \<in> {0x09, 0x0A, 0x0B, 0x0C, 0x0D, 0x20, 0xA0, 0x1680,
          0x2028, 0x2029, 0x202F, 0x205F, 0x3000, 0xFEFF}
     \<or> (0x2000 \<le> c \<and> c \<le> 0x200A)"

definition trim :: "jsstring \<Rightarrow> jsstring" where
  "trim s = rev (dropWhile isWhiteSpace (rev (dropWhile isWhiteSpace s)))"


section \<open>Thrown values\<close>

text \<open>
  What a \<^verbatim>\<open>catch\<close> clause of the service looks at in a thrown value: whether it is an
  instance of \<^verbatim>\<open>Error\<close>, its \<^verbatim>\<open>message\<close> property (when it has one), and the
  result of \<^verbatim>\<open>String(error)\<close>.  The message, when present, is a string, and the value
  converts to a string; an operation does not throw \<^verbatim>\<open>null\<close> or \<^verbatim>\<open>undefined\<close>.
\<close>

record jserror =
  isError :: bool
  message :: "jsstring option"
  asString :: jsstring

text \<open>\<^verbatim>\<open>new Error(msg)\<close>.\<close>

definition newError :: "jsstring \<Rightarrow> jserror" where
  "newError msg = \<lparr>isError = True, message = Some msg,
     asString = (if msg = [] then js ''Error'' else js ''Error: '' @ msg)\<rparr>"

text \<open>The value \<^verbatim>\<open>undefined\<close>, which \<^verbatim>\<open>lastError\<close> holds before any failure.\<close>

definition undefinedValue :: jserror where
  "undefinedValue = \<lparr>isError = False, message = None, asString = js ''undefined''\<rparr>"


section \<open>Retry wrapper\<close>

text \<open>\<^verbatim>\<open>const msg = error.message || String(error)\<close>: the empty string is falsy.\<close>

definition retryMsg :: "jserror \<Rightarrow> jsstring" where
  "retryMsg error =
     (case message error of
        Some m \<Rightarrow> if m \<noteq> [] then m else asString error
      | None \<Rightarrow> asString error)"

definition isTransient :: "jsstring \<Rightarrow> bool" where
  "isTransient msg \<longleftrightarrow>
     js_includes msg (js ''429'') \<or> js_includes msg (js ''503'')
     \<or> js_includes msg (js ''Quota exceeded'') \<or> js_includes msg (js ''NetworkError'')
     \<or> js_includes msg (js ''Failed to fetch'')"

text \<open>
  The observable behaviour of one call of \<^verbatim>\<open>retryOperation\<close>: what it returns or throws,
  how many times it invoked the operation, and the delays it passed to \<^verbatim>\<open>sleep\<close>, in
  order.
\<close>

record 'a run =
  outcome :: "jserror + 'a"
  calls :: nat
  sleeps :: "int list"

text \<open>
  The operation is an effectful thunk; \<open>operation n\<close> is what its \<open>n\<close>-th invocation
  (counted from 0) does: throw (\<open>Inl\<close>) or return (\<open>Inr\<close>).  The retry budget
  \<open>maxRetries\<close> is a count, a natural number (the orchestrator, its only caller, uses the
  default 3); delays are integers of time units.  The loop state is the attempt counter
  and \<^verbatim>\<open>lastError\<close>, together with the invocation count \<open>n\<close> and the delays \<open>ws\<close>
  requested so far.  The last line is the \<^verbatim>\<open>throw lastError\<close> after the loop.
\<close>

function retryLoop ::
  "(nat \<Rightarrow> jserror + 'a) \<Rightarrow> nat \<Rightarrow> int \<Rightarrow> nat \<Rightarrow> jserror \<Rightarrow> nat \<Rightarrow> int list \<Rightarrow> 'a run"
where
  "retryLoop operation maxRetries baseDelay attempt lastError n ws =
     (if attempt \<le> maxRetries then
        (case operation n of
           Inr v \<Rightarrow> \<lparr>outcome = Inr v, calls = n + 1, sleeps = ws\<rparr>
         | Inl error \<Rightarrow>
             if isTransient (retryMsg error) \<and> attempt < maxRetries
             then retryLoop operation maxRetries baseDelay (attempt + 1) error (n + 1)
                    (ws @ [baseDelay * 2 ^ attempt])
             else \<lparr>outcome = Inl error, calls = n + 1, sleeps = ws\<rparr>)
      else \<lparr>outcome = Inl lastError, calls = n, sleeps = ws\<rparr>)"
  by pat_completeness auto
termination
  by (relation "measure (\<lambda>(operation, maxRetries, baseDelay, attempt, rest).
        maxRetries + 1 - attempt)") auto

declare retryLoop.simps [simp del]

definition retryOperation :: "(nat \<Rightarrow> jserror + 'a) \<Rightarrow> nat \<Rightarrow> int \<Rightarrow> 'a run" where
  "retryOperation operation maxRetries baseDelay =
     retryLoop operation maxRetries baseDelay 0 undefinedValue 0 []"


text \<open>The delays requested before the attempts \<open>a, ..., k - 1\<close>.\<close>

definition backoff :: "int \<Rightarrow> nat \<Rightarrow> nat \<Rightarrow> int list" where
  "backoff baseDelay a k = map (\<lambda>i. baseDelay * 2 ^ i) [a..<k]"


section \<open>The two revisions of the service module\<close>

text \<open>
  The repository holds two revisions of the service module: \<^verbatim>\<open>services/geminiService.ts\<close>
  and a later one (\<^verbatim>\<open>unnamed/part_000\<close>).  \<^verbatim>\<open>retryOperation\<close> and \<^verbatim>\<open>cleanBaseUrl\<close> are the
  same in both; the credential normalizer, two texts of the error classifier, the client
  construction and the connectivity prober differ, and take the revision as an argument.
\<close>

datatype revision = Services_geminiService | Unnamed_part_000


section \<open>Endpoint normalizer\<close>

text \<open>\<^verbatim>\<open>s.replace(/\/+$/, '')\<close>: the trailing run of slashes is removed.\<close>

definition stripTrailingSlashes :: "jsstring \<Rightarrow> jsstring" where
  "stripTrailingSlashes s = rev (dropWhile (\<lambda>c. c = 0x2F) (rev s))"

definition endsWith :: "jsstring \<Rightarrow> jsstring \<Rightarrow> bool" where
  "endsWith s suf \<longleftrightarrow> length suf \<le> length s \<and> drop (length s - length suf) s = suf"

definition officialEndpoint :: jsstring where
  "officialEndpoint = js ''https://generativelanguage.googleapis.com''"

text \<open>
  The argument is \<open>None\<close> for \<^verbatim>\<open>undefined\<close>, and so is the result.  The empty string is
  falsy, so \<^verbatim>\<open>!url\<close> holds for it.
\<close>

definition cleanBaseUrl :: "jsstring option \<Rightarrow> jsstring option" where
  "cleanBaseUrl url =
     (case url of
        None \<Rightarrow> None
      | Some u \<Rightarrow>
          if u = [] \<or> trim u = [] then None
          else
            let cleaned = trim u;
                cleaned = stripTrailingSlashes cleaned;
                cleaned =
                  (if endsWith cleaned (js ''/v1beta'') then take (length cleaned - 7) cleaned
                   else if endsWith cleaned (js ''/v1'') then take (length cleaned - 3) cleaned
                   else cleaned);
                cleaned = stripTrailingSlashes cleaned
            in if cleaned = officialEndpoint then None else Some cleaned)"


section \<open>Credential normalizer\<close>

text \<open>
  \<^verbatim>\<open>/^Bearer\s+/i\<close>: without the \<^verbatim>\<open>u\<close> flag a case-insensitive match compares upper-cased
  code units, and no code unit above 127 is identified with an ASCII letter, so only the
  ASCII case of the six letters is ignored.
\<close>

definition asciiLower :: "jschar \<Rightarrow> jschar" where
  "asciiLower c = (if 0x41 \<le> c \<and> c \<le> 0x5A then c + 0x20 else c)"

definition stripBearerPrefix :: "jsstring \<Rightarrow> jsstring" where
  "stripBearerPrefix s =
     (let rest = drop 6 s in
      if map asciiLower (take 6 s) = js ''bearer'' \<and> rest \<noteq> [] \<and> isWhiteSpace (hd rest)
      then dropWhile isWhiteSpace rest
      else s)"

text \<open>\<^verbatim>\<open>s.replace(/[\s\uFEFF\xA0]+/g, '')\<close>: every character of the class is removed.\<close>

definition removeWhiteSpace :: "jsstring \<Rightarrow> jsstring" where
  "removeWhiteSpace s = filter (\<lambda>c. \<not> (isWhiteSpace c \<or> c = 0xFEFF \<or> c = 0xA0)) s"

fun cleanApiKey :: "revision \<Rightarrow> jsstring \<Rightarrow> jsstring" where
  "cleanApiKey Services_geminiService key =
     (if key = [] then [] else stripBearerPrefix (removeWhiteSpace key))"
| "cleanApiKey Unnamed_part_000 key =
     (if key = [] then [] else trim key)"


section \<open>Error classifier\<close>

definition msg400 :: "revision \<Rightarrow> jsstring" where
  "msg400 rv =
     (case rv of
        Services_geminiService \<Rightarrow>
          [0x8BF7, 0x6C42, 0x65E0, 0x6548] @ js '' (400) - '' @
          [0x4EE3, 0x7406, 0x5730, 0x5740, 0x4E0D, 0x652F, 0x6301, 0x5F53, 0x524D, 0x6A21,
           0x578B, 0xFF0C, 0x6216, 0x8BF7, 0x6C42, 0x683C, 0x5F0F, 0x4E0D, 0x517C, 0x5BB9] @
          js '' ('' @ [0x5DF2, 0x5C1D, 0x8BD5, 0x81EA, 0x52A8, 0x4FEE, 0x590D] @ js '')''
      | Unnamed_part_000 \<Rightarrow>
          [0x8BF7, 0x6C42, 0x65E0, 0x6548] @ js '' (400) - '' @
          [0x4EE3, 0x7406, 0x4E0D, 0x652F, 0x6301, 0x6B64, 0x6A21, 0x578B, 0x540D, 0xFF0C,
           0x6216, 0x9700, 0x8981] @ js '' role:user '' @ [0x5B57, 0x6BB5] @
          js '' ('' @ [0x5DF2, 0x5C1D, 0x8BD5, 0x4FEE, 0x590D] @ js '')'')"

definition msg401 :: jsstring where
  "msg401 = js ''API Key '' @ [0x65E0, 0x6548, 0x6216, 0x672A, 0x6388, 0x6743] @
     js '' (401) - '' @ [0x8BF7, 0x68C0, 0x67E5, 0x4F59, 0x989D, 0x6216] @ js '' Key '' @
     [0x662F, 0x5426, 0x6B63, 0x786E]"

definition msg403 :: jsstring where
  "msg403 = js ''API Key '' @ [0x6743, 0x9650, 0x4E0D, 0x8DB3] @ js '' (403)''"

definition msg404 :: "revision \<Rightarrow> jsstring" where
  "msg404 rv =
     (case rv of
        Services_geminiService \<Rightarrow>
          [0x5730, 0x5740, 0x9519, 0x8BEF] @ js '' (404) - '' @
          [0x4EE3, 0x7406, 0x5730, 0x5740, 0x8DEF, 0x5F84, 0x4E0D, 0x5339, 0x914D] @
          js '' (SDK'' @ [0x4F1A, 0x81EA, 0x52A8, 0x8FFD, 0x52A0] @ js '' /v1beta)''
      | Unnamed_part_000 \<Rightarrow>
          [0x5730, 0x5740, 0x9519, 0x8BEF] @ js '' (404) - '' @
          [0x4EE3, 0x7406, 0x5730, 0x5740, 0x8DEF, 0x5F84, 0x4E0D, 0x5339, 0x914D])"

definition msg429 :: jsstring where
  "msg429 = [0x8BF7, 0x6C42, 0x8FC7, 0x4E8E, 0x9891, 0x7E41] @ js ''/'' @
     [0x989D, 0x5EA6, 0x8017, 0x5C3D] @ js '' (429)''"

definition msg500 :: jsstring where
  "msg500 = js ''AI '' @ [0x670D, 0x52A1, 0x5185, 0x90E8, 0x9519, 0x8BEF] @ js '' (500)''"

definition msg503 :: jsstring where
  "msg503 = [0x670D, 0x52A1, 0x6682, 0x65F6, 0x4E0D, 0x53EF, 0x7528] @ js '' (503)''"

definition msgNetwork :: jsstring where
  "msgNetwork = [0x7F51, 0x7EDC, 0x8FDE, 0x63A5, 0x5931, 0x8D25] @ js '' ('' @
     [0x8BF7, 0x68C0, 0x67E5, 0x4EE3, 0x7406, 0x5730, 0x5740] @ js ''/VPN/'' @
     [0x8DE8, 0x57DF, 0x8BBE, 0x7F6E] @ js '')''"

text \<open>
  \<^verbatim>\<open>error instanceof Error ? error.message : String(error)\<close>.  An \<^verbatim>\<open>Error\<close> without a
  message of its own inherits the empty one of its prototype.
\<close>

definition errorText :: "jserror \<Rightarrow> jsstring" where
  "errorText error =
     (if isError error then (case message error of Some m \<Rightarrow> m | None \<Rightarrow> [])
      else asString error)"

definition classify :: "revision \<Rightarrow> jsstring \<Rightarrow> jsstring" where
  "classify rv msg =
     (if js_includes msg (js ''400'') then msg400 rv
      else if js_includes msg (js ''401'') then msg401
      else if js_includes msg (js ''403'') then msg403
      else if js_includes msg (js ''404'') then msg404 rv
      else if js_includes msg (js ''429'') then msg429
      else if js_includes msg (js ''500'') then msg500
      else if js_includes msg (js ''503'') then msg503
      else if js_includes msg (js ''Failed to fetch'') \<or> js_includes msg (js ''NetworkError'')
        then msgNetwork
      else msg)"

definition formatError :: "revision \<Rightarrow> jserror \<Rightarrow> jsstring \<Rightarrow> jsstring" where
  "formatError rv error context = context @ js '': '' @ classify rv (errorText error)"


section \<open>Call orchestrator\<close>

record settings =
  apiKey :: jsstring
  baseUrl :: jsstring
  textModel :: jsstring
  imageModel :: jsstring
  customTextModels :: "(jsstring \<times> jsstring) list option"
  jianYingPath :: jsstring
  outputImgPath :: jsstring
  themeColor :: jsstring

text \<open>
  The options the SDK client is built from.  The later revision also sends the credential
  as a bearer token.  An empty \<^verbatim>\<open>baseUrl\<close> is falsy and is not set.
\<close>

record client =
  clientApiKey :: jsstring
  clientBaseUrl :: "jsstring option"
  apiVersion :: jsstring
  authorization :: "jsstring option"

definition createClient :: "revision \<Rightarrow> jsstring \<Rightarrow> jsstring option \<Rightarrow> client" where
  "createClient rv key url =
     \<lparr>clientApiKey = key,
      clientBaseUrl = (case url of Some u \<Rightarrow> if u \<noteq> [] then Some u else None | None \<Rightarrow> None),
      apiVersion = js ''v1beta'',
      authorization =
        (case rv of Services_geminiService \<Rightarrow> None
         | Unnamed_part_000 \<Rightarrow> Some (js ''Bearer '' @ key))\<rparr>"

definition msgNoApiKey :: jsstring where
  "msgNoApiKey = [0x672A, 0x914D, 0x7F6E] @ js '' API Key''"

text \<open>
  \<open>operation ai n\<close> is what the \<open>n\<close>-th invocation of the operation does with the client
  \<open>ai\<close>.  The retry wrapper is called with its default budget (3 retries, base delay 2000).
\<close>

definition executeGeminiCall ::
  "revision \<Rightarrow> settings \<Rightarrow> (client \<Rightarrow> nat \<Rightarrow> jserror + 'a) \<Rightarrow> jsstring \<Rightarrow> 'a run"
where
  "executeGeminiCall rv settings operation contextName =
     (let key = cleanApiKey rv (apiKey settings) in
      if key = [] then \<lparr>outcome = Inl (newError msgNoApiKey), calls = 0, sleeps = []\<rparr>
      else
        let url = cleanBaseUrl (Some (baseUrl settings));
            ai = createClient rv key url;
            r = retryOperation (operation ai) 3 2000
        in case outcome r of
             Inr v \<Rightarrow> r
           | Inl error \<Rightarrow> r\<lparr>outcome := Inl (newError (formatError rv error contextName))\<rparr>)"


section \<open>Model responses and JSON values\<close>

text \<open>
  The value \<^verbatim>\<open>JSON.parse\<close> returns.  An object is the list of its properties in
  insertion order, with distinct keys; a number is a finite one.
\<close>

datatype json =
    JNull
  | JBool bool
  | JNumber rat
  | JString jsstring
  | JArray "json list"
  | JObject "(jsstring \<times> json) list"

type_synonym jsobject = "(jsstring \<times> json) list"

text \<open>What \<^verbatim>\<open>if (x)\<close>, \<^verbatim>\<open>!x\<close> and \<^verbatim>\<open>x || y\<close> test.\<close>

fun truthy :: "json \<Rightarrow> bool" where
  "truthy JNull = False"
| "truthy (JBool b) = b"
| "truthy (JNumber r) = (r \<noteq> 0)"
| "truthy (JString s) = (s \<noteq> [])"
| "truthy (JArray xs) = True"
| "truthy (JObject kvs) = True"

text \<open>
  Reading one of the properties \<^verbatim>\<open>prompt\<close>, \<^verbatim>\<open>activeCharacterNames\<close>, \<^verbatim>\<open>activeNames\<close>
  of a value other than \<^verbatim>\<open>null\<close>: only an object can have it, \<open>None\<close> is
  \<^verbatim>\<open>undefined\<close>.
\<close>

fun getProperty :: "json \<Rightarrow> jsstring \<Rightarrow> json option" where
  "getProperty (JObject kvs) k = map_of kvs k"
| "getProperty j k = None"

text \<open>The part of the service's reply the tasks read: \<^verbatim>\<open>response.text\<close>.\<close>

record response =
  responseText :: "jsstring option"

text \<open>\<^verbatim>\<open>s.replace(/pat/g, '')\<close> for a literal pattern: every occurrence, found from left to
  right, is removed.\<close>

function replaceAll :: "jsstring \<Rightarrow> jsstring \<Rightarrow> jsstring" where
  "replaceAll pat [] = []"
| "replaceAll pat (c # cs) =
     (if pat \<noteq> [] \<and> prefix pat (c # cs) then replaceAll pat (drop (length pat) (c # cs))
      else c # replaceAll pat cs)"
  by pat_completeness auto
termination
  by (relation "measure (\<lambda>(pat, s). length s)") auto

text \<open>\<^verbatim>\<open>text.replace(/```json/g, '').replace(/```/g, '').trim()\<close>, where 0x60 is the
  backquote.\<close>

definition stripFences :: "jsstring \<Rightarrow> jsstring" where
  "stripFences t =
     trim (replaceAll [0x60, 0x60, 0x60] (replaceAll ([0x60, 0x60, 0x60] @ js ''json'') t))"

text \<open>\<^verbatim>\<open>response.text || dflt\<close>.\<close>

definition textOr :: "response \<Rightarrow> jsstring \<Rightarrow> jsstring" where
  "textOr response dflt =
     (case responseText response of Some t \<Rightarrow> if t \<noteq> [] then t else dflt | None \<Rightarrow> dflt)"


section \<open>Batch shot inference\<close>

record entry =
  prompt :: json
  activeNames :: "json list"

definition placeholder :: entry where
  "placeholder = \<lparr>prompt = JString [], activeNames = []\<rparr>"

text \<open>
  The callback of \<^verbatim>\<open>json.map\<close>.  Reading a property of \<^verbatim>\<open>null\<close> throws a
  \<^verbatim>\<open>TypeError\<close>, which is \<open>None\<close> here.
\<close>

definition toEntry :: "json \<Rightarrow> entry option" where
  "toEntry item =
     (if item = JNull then None
      else Some
        \<lparr>prompt =
           (case getProperty item (js ''prompt'') of
              Some p \<Rightarrow> if truthy p then p else JString []
            | None \<Rightarrow> JString []),
         activeNames =
           (case getProperty item (js ''activeCharacterNames'') of
              Some (JArray xs) \<Rightarrow> xs
            | _ \<Rightarrow>
               (case getProperty item (js ''activeNames'') of
                  Some (JArray ys) \<Rightarrow> ys
                | _ \<Rightarrow> []))\<rparr>)"

text \<open>
  What the operation of \<^verbatim>\<open>inferBatchPrompts\<close> does with the reply.  \<open>parse\<close> is
  \<^verbatim>\<open>JSON.parse\<close>, which throws (\<open>Inl\<close>) or returns the value.  Everything thrown inside
  the \<^verbatim>\<open>try\<close> block is swallowed, and the placeholders are returned.
\<close>

definition batchResult ::
  "(jsstring \<Rightarrow> jserror + json) \<Rightarrow> jsstring list \<Rightarrow> response \<Rightarrow> entry list"
where
  "batchResult parse scripts response =
     (let t = stripFences (textOr response (js ''[]'')) in
      case parse t of
        Inr (JArray items) \<Rightarrow>
          (case those (map toEntry items) of
             Some entries \<Rightarrow> entries
           | None \<Rightarrow> replicate (length scripts) placeholder)
      | _ \<Rightarrow> replicate (length scripts) placeholder)"

definition ctxBatch :: jsstring where
  "ctxBatch = [0x6279, 0x91CF, 0x63A8, 0x7406, 0x5931, 0x8D25]"

text \<open>
  \<open>generateContent ai n\<close> is the service's answer to the \<open>n\<close>-th request sent through the
  client \<open>ai\<close> during the call: it throws or returns a response.  The character library
  and the context summary only enter the text of the request, and the pause of 500 time
  units before the request changes nothing in the result.
\<close>

definition inferBatchPrompts ::
  "revision \<Rightarrow> (jsstring \<Rightarrow> jserror + json) \<Rightarrow> (client \<Rightarrow> nat \<Rightarrow> jserror + response) \<Rightarrow>
   jsstring list \<Rightarrow> settings \<Rightarrow> entry list"
where
  "inferBatchPrompts rv parse generateContent scripts settings =
     (let operation = (\<lambda>ai n. case generateContent ai n of
                          Inl e \<Rightarrow> Inl e
                        | Inr response \<Rightarrow> Inr (batchResult parse scripts response))
      in case outcome (executeGeminiCall rv settings operation ctxBatch) of
           Inr entries \<Rightarrow> entries
         | Inl e \<Rightarrow> replicate (length scripts) placeholder)"


section \<open>Script breakdown\<close>

text \<open>\<^verbatim>\<open>s.split(sep)\<close> for a one-character separator.\<close>

fun splitOn :: "jschar \<Rightarrow> jsstring \<Rightarrow> jsstring list" where
  "splitOn sep [] = [[]]"
| "splitOn sep (c # cs) =
     (if c = sep then [] # splitOn sep cs
      else (case splitOn sep cs of l # ls \<Rightarrow> (c # l) # ls | [] \<Rightarrow> [[c]]))"

text \<open>\<^verbatim>\<open>scriptText.split('\n').filter(l => l.trim().length > 0)\<close>.\<close>

definition fallbackLines :: "jsstring \<Rightarrow> jsstring list" where
  "fallbackLines scriptText = filter (\<lambda>l. length (trim l) > 0) (splitOn 0x0A scriptText)"

definition ctxBreakdown :: jsstring where
  "ctxBreakdown = [0x5206, 0x955C, 0x62C6, 0x89E3, 0x5931, 0x8D25]"

text \<open>
  The operation returns whatever \<^verbatim>\<open>JSON.parse\<close> returns and throws what it throws.  The
  result of the task is a JavaScript value: the parsed one, or the array of the fallback
  lines.
\<close>

definition breakdownOperation ::
  "(jsstring \<Rightarrow> jserror + json) \<Rightarrow> (client \<Rightarrow> nat \<Rightarrow> jserror + response) \<Rightarrow>
   client \<Rightarrow> nat \<Rightarrow> jserror + json"
where
  "breakdownOperation parse generateContent ai n =
     (case generateContent ai n of
        Inl e \<Rightarrow> Inl e
      | Inr response \<Rightarrow> parse (stripFences (textOr response (js ''[]''))))"

definition breakdownScript ::
  "revision \<Rightarrow> (jsstring \<Rightarrow> jserror + json) \<Rightarrow> (client \<Rightarrow> nat \<Rightarrow> jserror + response) \<Rightarrow>
   jsstring \<Rightarrow> settings \<Rightarrow> json"
where
  "breakdownScript rv parse generateContent scriptText settings =
     (case outcome (executeGeminiCall rv settings
                      (breakdownOperation parse generateContent) ctxBreakdown) of
        Inr v \<Rightarrow> v
      | Inl e \<Rightarrow> JArray (map JString (fallbackLines scriptText)))"


section \<open>Connectivity prober\<close>

record model_ref =
  modelValue :: jsstring
  modelLabel :: jsstring

definition DEFAULT_TEXT_MODELS :: "model_ref list" where
  "DEFAULT_TEXT_MODELS =
     [\<lparr>modelValue = js ''gemini-2.5-pro'', modelLabel = js ''gemini-2.5-pro''\<rparr>,
      \<lparr>modelValue = js ''gemini-3-pro-preview'', modelLabel = js ''gemini-3-pro-preview''\<rparr>,
      \<lparr>modelValue = js ''gemini-1.5-pro'', modelLabel = js ''gemini-1.5-pro''\<rparr>,
      \<lparr>modelValue = js ''gemini-2.5-flash'', modelLabel = js ''gemini-2.5-flash''\<rparr>]"

text \<open>\<^verbatim>\<open>[...new Set(xs)]\<close>: a set keeps its elements in insertion order, and adding an
  element it already has changes nothing.\<close>

definition newSet :: "'a list \<Rightarrow> 'a list" where
  "newSet xs = fold (\<lambda>x seen. if x \<in> set seen then seen else seen @ [x]) xs []"

text \<open>The value \<^verbatim>\<open>null\<close>, which \<^verbatim>\<open>lastError\<close> of the prober holds before any failure.\<close>

definition nullValue :: jserror where
  "nullValue = \<lparr>isError = False, message = None, asString = js ''null''\<rparr>"

definition msgEmptyKey :: jsstring where
  "msgEmptyKey = js ''API Key '' @ [0x4E3A, 0x7A7A]"

definition ctxAllFailed :: jsstring where
  "ctxAllFailed = [0x6240, 0x6709, 0x6A21, 0x578B, 0x8FDE, 0x63A5, 0x6D4B, 0x8BD5, 0x5747, 0x5931, 0x8D25]"

text \<open>
  What one call of the prober does: the model it returns or the error it throws, and the
  requests it sent, in order, each with the model asked and whether the request succeeded.
\<close>

record probe =
  probeOutcome :: "jserror + jsstring"
  attempts :: "(jsstring \<times> bool) list"

text \<open>
  \<open>ping m\<close> is the service's answer to the minimal request for the model \<open>m\<close>.  The later
  revision skips an empty model name.
\<close>

fun probeLoop ::
  "revision \<Rightarrow> (jsstring \<Rightarrow> jserror + response) \<Rightarrow> jsstring list \<Rightarrow> jserror \<Rightarrow>
   (jsstring \<times> bool) list \<Rightarrow> probe"
where
  "probeLoop rv ping [] lastError tried =
     \<lparr>probeOutcome = Inl (newError (formatError rv lastError ctxAllFailed)), attempts = tried\<rparr>"
| "probeLoop rv ping (modelName # rest) lastError tried =
     (if rv = Unnamed_part_000 \<and> modelName = [] then probeLoop rv ping rest lastError tried
      else
        (case ping modelName of
           Inr response \<Rightarrow>
             \<lparr>probeOutcome = Inr modelName, attempts = tried @ [(modelName, True)]\<rparr>
         | Inl error \<Rightarrow> probeLoop rv ping rest error (tried @ [(modelName, False)])))"

text \<open>
  The earlier revision tries its list \<^verbatim>\<open>TEXT_MODELS\<close>, whose declaration is not part of the
  sources and is the argument \<open>textModels\<close>; it has no priority models.  The later one tries
  the priority models and then \<^verbatim>\<open>DEFAULT_TEXT_MODELS\<close>, without repetitions.
\<close>

definition modelsToTry :: "revision \<Rightarrow> model_ref list \<Rightarrow> jsstring list \<Rightarrow> jsstring list" where
  "modelsToTry rv textModels priorityModels =
     (case rv of
        Services_geminiService \<Rightarrow> map modelValue textModels
      | Unnamed_part_000 \<Rightarrow> newSet (priorityModels @ map modelValue DEFAULT_TEXT_MODELS))"

definition testApiConnection ::
  "revision \<Rightarrow> model_ref list \<Rightarrow> (client \<Rightarrow> jsstring \<Rightarrow> jserror + response) \<Rightarrow>
   jsstring \<Rightarrow> jsstring \<Rightarrow> jsstring list \<Rightarrow> probe"
where
  "testApiConnection rv textModels ping key url priorityModels =
     (let cleanKey = cleanApiKey rv key;
          cleanUrl = cleanBaseUrl (Some url)
      in if cleanKey = [] then \<lparr>probeOutcome = Inl (newError msgEmptyKey), attempts = []\<rparr>
         else
           let ai = createClient rv cleanKey cleanUrl
           in probeLoop rv (ping ai) (modelsToTry rv textModels priorityModels) nullValue [])"


section \<open>Stored settings\<close>

definition DEFAULT_SETTINGS :: jsobject where
  "DEFAULT_SETTINGS =
     [(js ''apiKey'', JString []),
      (js ''baseUrl'', JString []),
      (js ''textModel'', JString (js ''gemini-2.5-pro'')),
      (js ''imageModel'', JString (js ''gemini-2.5-flash-image'')),
      (js ''customTextModels'', JArray []),
      (js ''jianYingPath'',
         JString (js ''C:/Users/Admin/AppData/Local/JianYingPro/User Data/Projects/'')),
      (js ''outputImgPath'', JString (js ''D:/AI_Output/'')),
      (js ''themeColor'', JString (js ''#f97316''))]"

text \<open>The decimal numeral of an array index, which is its property name.\<close>

function decimal :: "nat \<Rightarrow> jsstring" where
  "decimal n = (if n < 10 then [of_nat (48 + n)] else decimal (n div 10) @ [of_nat (48 + n mod 10)])"
  by pat_completeness auto
termination
  by (relation "measure (\<lambda>n. n)") auto

declare decimal.simps [simp del]

text \<open>
  The own enumerable properties of a parsed value.  A primitive has none, and the
  \<^verbatim>\<open>in\<close> operator throws a \<^verbatim>\<open>TypeError\<close> on it (\<open>None\<close>).
\<close>

fun ownProperties :: "json \<Rightarrow> jsobject option" where
  "ownProperties (JObject kvs) = Some kvs"
| "ownProperties (JArray xs) = Some (zip (map decimal [0..<length xs]) xs)"
| "ownProperties j = None"

text \<open>\<^verbatim>\<open>{ ...target, ...source }\<close>: the properties of the source are assigned in order.\<close>

definition spread :: "jsobject \<Rightarrow> jsobject \<Rightarrow> jsobject" where
  "spread target source = fold (\<lambda>(k, v) obj. AList.update k v obj) source target"

datatype load_failure = SyntaxError jserror | TypeError

text \<open>
  \<open>data\<close> is what \<^verbatim>\<open>localStorage.getItem\<close> returns: \<open>None\<close> for \<^verbatim>\<open>null\<close>.  The empty
  string is falsy.
\<close>

definition getSettingsSync ::
  "(jsstring \<Rightarrow> jserror + json) \<Rightarrow> jsstring option \<Rightarrow> load_failure + jsobject"
where
  "getSettingsSync parse data =
     (case (case data of
              Some d \<Rightarrow> if d \<noteq> [] then parse d else Inr (JObject DEFAULT_SETTINGS)
            | None \<Rightarrow> Inr (JObject DEFAULT_SETTINGS)) of
        Inl e \<Rightarrow> Inl (SyntaxError e)
      | Inr localSettings \<Rightarrow>
          (case ownProperties localSettings of
             None \<Rightarrow> Inl TypeError
           | Some props \<Rightarrow>
               let props = (if js ''apiKeys'' \<in> fst ` set props
                            then AList.delete (js ''apiKeys'') props else props);
                   props = (if (case map_of props (js ''customTextModels'') of
                                  Some v \<Rightarrow> \<not> truthy v | None \<Rightarrow> True)
                            then AList.update (js ''customTextModels'') (JArray []) props
                            else props)
               in Inr (spread DEFAULT_SETTINGS props)))"


section \<open>Candidates and attempts of the prober\<close>

text \<open>The model names the loop of the later revision passes over without a request.\<close>

definition skipped :: "revision \<Rightarrow> jsstring \<Rightarrow> bool" where
  "skipped rv modelName \<longleftrightarrow> rv = Unnamed_part_000 \<and> modelName = []"

text \<open>The models the prober asks for, in order, until one answers.\<close>

definition candidates :: "revision \<Rightarrow> model_ref list \<Rightarrow> jsstring list \<Rightarrow> jsstring list" where
  "candidates rv textModels priorityModels =
     filter (\<lambda>m. \<not> skipped rv m) (modelsToTry rv textModels priorityModels)"

definition failedAttempts :: "probe \<Rightarrow> nat" where
  "failedAttempts p = length (filter (\<lambda>(m, ok). \<not> ok) (attempts p))"

definition successfulAttempts :: "probe \<Rightarrow> nat" where
  "successfulAttempts p = length (filter (\<lambda>(m, ok). ok) (attempts p))"

text \<open>Removing repetitions while keeping every first occurrence in place.\<close>

fun firstSeen :: "'a list \<Rightarrow> 'a list" where
  "firstSeen [] = []"
| "firstSeen (x # xs) = x # filter (\<lambda>y. y \<noteq> x) (firstSeen xs)"


section \<open>Auxiliary notions for the tasks and the store\<close>

text \<open>\<^verbatim>\<open>Array.isArray\<close>.\<close>

fun isArray :: "json \<Rightarrow> bool" where
  "isArray (JArray xs) = True"
| "isArray j = False"

text \<open>The client the orchestrator builds from the settings.\<close>

definition theClient :: "revision \<Rightarrow> settings \<Rightarrow> client" where
  "theClient rv settings =
     createClient rv (cleanApiKey rv (apiKey settings)) (cleanBaseUrl (Some (baseUrl settings)))"

text \<open>
  The stored properties after the two repairs of \<^verbatim>\<open>getSettingsSync\<close>: the key
  \<^verbatim>\<open>apiKeys\<close> is deleted, and a missing or falsy \<^verbatim>\<open>customTextModels\<close> becomes the
  empty array.
\<close>

definition repaired :: "jsobject \<Rightarrow> jsobject" where
  "repaired props =
     (let props = (if js ''apiKeys'' \<in> fst ` set props
                   then AList.delete (js ''apiKeys'') props else props);
          props = (if (case map_of props (js ''customTextModels'') of
                         Some v \<Rightarrow> \<not> truthy v | None \<Rightarrow> True)
                   then AList.update (js ''customTextModels'') (JArray []) props
                   else props)
      in props)"


text \<open>\<^verbatim>\<open>lines.join(sep)\<close> for a one-character separator, the inverse of splitting.\<close>

fun joinWith :: "jschar \<Rightarrow> jsstring list \<Rightarrow> jsstring" where
  "joinWith sep [] = []"
| "joinWith sep [l] = l"
| "joinWith sep (l # m # ls) = l @ sep # joinWith sep (m # ls)"


section \<open>Endpoints in normal form\<close>

text \<open>
  A base address on which the endpoint normalizer has nothing left to do: it is not empty,
  has no white space at either end, and ends neither in a slash nor in a version suffix.
\<close>

definition plainBase :: "jsstring \<Rightarrow> bool" where
  "plainBase b \<longleftrightarrow>
     b \<noteq> [] \<and> \<not> isWhiteSpace (hd b) \<and> \<not> isWhiteSpace (last b) \<and> last b \<noteq> 0x2F
     \<and> \<not> endsWith b (js ''/v1beta'') \<and> \<not> endsWith b (js ''/v1'')"


section \<open>Sample inputs\<close>

text \<open>An operation that fails \<open>k\<close> times with a rate-limit error and then returns 7.\<close>

definition flakyOperation :: "nat \<Rightarrow> nat \<Rightarrow> jserror + nat" where
  "flakyOperation k i =
     (if i < k then Inl (newError (js ''HTTP 429 Too Many Requests'')) else Inr 7)"

text \<open>An operation that always fails with an authorization error.\<close>

definition deniedOperation :: "nat \<Rightarrow> jserror + nat" where
  "deniedOperation i = Inl (newError (js ''HTTP 401 Unauthorized''))"


text \<open>A service on which only \<^verbatim>\<open>model-b\<close> answers, and one on which no model does.\<close>

definition pingOnlyB :: "client \<Rightarrow> jsstring \<Rightarrow> jserror + response" where
  "pingOnlyB ai modelName =
     (if modelName = js ''model-b'' then Inr \<lparr>responseText = Some (js ''Pong'')\<rparr>
      else Inl (newError (js ''404 model not found: '' @ modelName)))"

definition pingNothing :: "client \<Rightarrow> jsstring \<Rightarrow> jserror + response" where
  "pingNothing ai modelName = Inl (newError (js ''404 model not found: '' @ modelName))"


text \<open>A parser for a store that holds the text of the object \<open>obj\<close>, and two stored
  objects with keys that are not settings.\<close>

definition parseStored :: "jsobject \<Rightarrow> jsstring \<Rightarrow> jserror + json" where
  "parseStored obj d = Inr (JObject obj)"

definition sampleStored :: jsobject where
  "sampleStored =
     [(js ''apiKey'', JString (js ''sk-abc123'')), (js ''apiKeys'', JArray []),
      (js ''customTextModels'', JArray [JString (js ''my-model'')]),
      (js ''legacyFlag'', JBool True)]"

definition legacyStored :: jsobject where
  "legacyStored = [(js ''legacyFlag'', JBool True)]"


text \<open>
  Settings with a credential, a service that refuses every request, a service that always
  replies with the text \<open>t\<close>, a parser that agrees with \<^verbatim>\<open>JSON.parse\<close> on the texts used
  below, and a script of three lines, the second of which is blank.
\<close>

definition sampleSettings :: settings where
  "sampleSettings =
     \<lparr>apiKey = js ''sk-abc123'', baseUrl = js ''https://proxy.example/v1'',
      textModel = js ''gemini-2.5-pro'', imageModel = js ''gemini-2.5-flash-image'',
      customTextModels = None, jianYingPath = [], outputImgPath = [],
      themeColor = js ''#f97316''\<rparr>"

definition serviceDown :: "client \<Rightarrow> nat \<Rightarrow> jserror + response" where
  "serviceDown ai n = Inl (newError (js ''HTTP 401 Unauthorized''))"

definition serviceReplies :: "jsstring \<Rightarrow> client \<Rightarrow> nat \<Rightarrow> jserror + response" where
  "serviceReplies t ai n = Inr \<lparr>responseText = Some t\<rparr>"

definition parseSample :: "jsstring \<Rightarrow> jserror + json" where
  "parseSample t =
     (if t = js ''[]'' then Inr (JArray [])
      else if t = js ''{}'' then Inr (JObject [])
      else if t = js ''42'' then Inr (JNumber 42)
      else Inl (newError (js ''Unexpected token'')))"

text \<open>
  A parser whose error message quotes the text it rejects, and a service whose first reply
  has the text \<open>t1\<close> and whose later replies have the text \<open>t2\<close>.
\<close>

definition parseQuoting :: "jsstring \<Rightarrow> jserror + json" where
  "parseQuoting t =
     (if t = js ''[]'' then Inr (JArray [])
      else Inl (newError (js ''Unexpected token in JSON: '' @ t)))"

definition serviceRepliesThen :: "jsstring \<Rightarrow> jsstring \<Rightarrow> client \<Rightarrow> nat \<Rightarrow> jserror + response" where
  "serviceRepliesThen t1 t2 ai n = Inr \<lparr>responseText = Some (if n = 0 then t1 else t2)\<rparr>"

definition sampleScript :: jsstring where
  "sampleScript = js ''INT. ROOM'' @ [0x0A, 0x20, 0x0A] @ js ''She waves.''"

section \<open>Properties of the retry wrapper\<close>

lemma includes_iff_sublist: "js_includes s pat \<longleftrightarrow> sublist pat s"
  by (induction s) (auto simp: sublist_Cons_right)

lemma retryLoop_success:
  "attempt \<le> maxRetries \<Longrightarrow> operation n = Inr v \<Longrightarrow>
   retryLoop operation maxRetries baseDelay attempt lastError n ws =
     \<lparr>outcome = Inr v, calls = n + 1, sleeps = ws\<rparr>"
  by (subst retryLoop.simps) simp

lemma retryLoop_again:
  "attempt < maxRetries \<Longrightarrow> operation n = Inl e \<Longrightarrow> isTransient (retryMsg e) \<Longrightarrow>
   retryLoop operation maxRetries baseDelay attempt lastError n ws =
     retryLoop operation maxRetries baseDelay (attempt + 1) e (n + 1)
       (ws @ [baseDelay * 2 ^ attempt])"
  by (subst retryLoop.simps) simp

lemma retryLoop_rethrow:
  "attempt \<le> maxRetries \<Longrightarrow> operation n = Inl e \<Longrightarrow>
   \<not> isTransient (retryMsg e) \<or> attempt = maxRetries \<Longrightarrow>
   retryLoop operation maxRetries baseDelay attempt lastError n ws =
     \<lparr>outcome = Inl e, calls = n + 1, sleeps = ws\<rparr>"
  by (subst retryLoop.simps) auto

lemma backoff_step: "a < k \<Longrightarrow> [baseDelay * 2 ^ a] @ backoff baseDelay (Suc a) k = backoff baseDelay a k"
  by (simp add: backoff_def upt_conv_Cons)

lemma sum_backoff: "sum_list (backoff baseDelay 0 k) = baseDelay * (2 ^ k - 1)"
  by (induction k) (simp_all add: backoff_def algebra_simps)

lemma retryLoop_transient_then_success:
  assumes "\<forall>i. a \<le> i \<and> i < k \<longrightarrow> (\<exists>e. operation i = Inl e \<and> isTransient (retryMsg e))"
    and "operation k = Inr v" and "a \<le> k" and "k \<le> maxRetries"
  shows "retryLoop operation maxRetries baseDelay a lastError a ws =
           \<lparr>outcome = Inr v, calls = k + 1, sleeps = ws @ backoff baseDelay a k\<rparr>"
  using assms
proof (induction "k - a" arbitrary: a lastError ws)
  case 0
  then have "a = k" by simp
  with 0 show ?case by (simp add: retryLoop_success backoff_def)
next
  case (Suc d)
  then have lt: "a < k" by simp
  with Suc.prems obtain e where e: "operation a = Inl e" "isTransient (retryMsg e)"
    by blast
  have step: "retryLoop operation maxRetries baseDelay a lastError a ws =
      retryLoop operation maxRetries baseDelay (Suc a) e (Suc a) (ws @ [baseDelay * 2 ^ a])"
    using lt Suc.prems(4) e by (simp add: retryLoop_again)
  have "retryLoop operation maxRetries baseDelay (Suc a) e (Suc a) (ws @ [baseDelay * 2 ^ a]) =
      \<lparr>outcome = Inr v, calls = k + 1,
        sleeps = (ws @ [baseDelay * 2 ^ a]) @ backoff baseDelay (Suc a) k\<rparr>"
  proof (rule Suc.hyps(1))
    show "d = k - Suc a" using Suc.hyps(2) by simp
    show "\<forall>i. Suc a \<le> i \<and> i < k \<longrightarrow> (\<exists>e. operation i = Inl e \<and> isTransient (retryMsg e))"
      using Suc.prems(1) by auto
    show "operation k = Inr v" by (rule Suc.prems(2))
    show "Suc a \<le> k" using lt by simp
    show "k \<le> maxRetries" by (rule Suc.prems(4))
  qed
  with step show ?case using backoff_step [OF lt, of baseDelay] by simp
qed

lemma retryLoop_exhausted:
  assumes "\<forall>i. a \<le> i \<and> i \<le> maxRetries \<longrightarrow> (\<exists>e. operation i = Inl e \<and> isTransient (retryMsg e))"
    and "a \<le> maxRetries"
  shows "retryLoop operation maxRetries baseDelay a lastError a ws =
           \<lparr>outcome = operation maxRetries, calls = maxRetries + 1,
            sleeps = ws @ backoff baseDelay a maxRetries\<rparr>"
  using assms
proof (induction "maxRetries - a" arbitrary: a lastError ws)
  case 0
  then have eq: "a = maxRetries" by simp
  with 0 obtain e where e: "operation maxRetries = Inl e" by blast
  show ?case
    using retryLoop_rethrow [of maxRetries maxRetries operation maxRetries e] e eq
    by (simp add: backoff_def)
next
  case (Suc d)
  then have lt: "a < maxRetries" by simp
  with Suc.prems obtain e where e: "operation a = Inl e" "isTransient (retryMsg e)"
    by (metis order_refl)
  have step: "retryLoop operation maxRetries baseDelay a lastError a ws =
      retryLoop operation maxRetries baseDelay (Suc a) e (Suc a) (ws @ [baseDelay * 2 ^ a])"
    using lt e by (simp add: retryLoop_again)
  have "retryLoop operation maxRetries baseDelay (Suc a) e (Suc a) (ws @ [baseDelay * 2 ^ a]) =
      \<lparr>outcome = operation maxRetries, calls = maxRetries + 1,
        sleeps = (ws @ [baseDelay * 2 ^ a]) @ backoff baseDelay (Suc a) maxRetries\<rparr>"
  proof (rule Suc.hyps(1))
    show "d = maxRetries - Suc a" using Suc.hyps(2) by simp
    show "\<forall>i. Suc a \<le> i \<and> i \<le> maxRetries \<longrightarrow>
            (\<exists>e. operation i = Inl e \<and> isTransient (retryMsg e))"
      using Suc.prems(1) by auto
    show "Suc a \<le> maxRetries" using lt by simp
  qed
  with step show ?case using backoff_step [OF lt, of baseDelay] by simp
qed

text \<open>
  C1.  An operation fails with transient-marked errors on its first \<open>k\<close> invocations and
  succeeds on the next one.  If \<open>k \<le> maxRetries\<close>, \<^verbatim>\<open>retryOperation\<close> returns the success
  value after exactly \<open>k + 1\<close> invocations, and the delays it requested add up to at least
  \<open>baseDelay * (2 ^ k - 1)\<close>.  If \<open>k > maxRetries\<close>, it throws the error of the last
  invocation it made, after exactly \<open>maxRetries + 1\<close> invocations.
\<close>

theorem retryOperation_transient_failures:
  assumes "\<forall>i<k. \<exists>e. operation i = Inl e \<and> isTransient (retryMsg e)"
    and "operation k = Inr v"
  shows "(k \<le> maxRetries \<longrightarrow>
            outcome (retryOperation operation maxRetries baseDelay) = Inr v
          \<and> calls (retryOperation operation maxRetries baseDelay) = k + 1
          \<and> baseDelay * (2 ^ k - 1)
              \<le> sum_list (sleeps (retryOperation operation maxRetries baseDelay)))
       \<and> (maxRetries < k \<longrightarrow>
            (\<exists>e. operation maxRetries = Inl e
                \<and> outcome (retryOperation operation maxRetries baseDelay) = Inl e)
          \<and> calls (retryOperation operation maxRetries baseDelay) = maxRetries + 1)"
proof (intro conjI impI)
  assume le: "k \<le> maxRetries"
  have run: "retryOperation operation maxRetries baseDelay =
      \<lparr>outcome = Inr v, calls = k + 1, sleeps = [] @ backoff baseDelay 0 k\<rparr>"
    unfolding retryOperation_def
    using assms le by (intro retryLoop_transient_then_success) auto
  show "outcome (retryOperation operation maxRetries baseDelay) = Inr v"
    by (simp add: run)
  show "calls (retryOperation operation maxRetries baseDelay) = k + 1"
    by (simp add: run)
  show "baseDelay * (2 ^ k - 1)
      \<le> sum_list (sleeps (retryOperation operation maxRetries baseDelay))"
    by (simp add: run sum_backoff)
next
  assume lt: "maxRetries < k"
  have run: "retryOperation operation maxRetries baseDelay =
      \<lparr>outcome = operation maxRetries, calls = maxRetries + 1,
       sleeps = [] @ backoff baseDelay 0 maxRetries\<rparr>"
    unfolding retryOperation_def
    using assms(1) lt by (intro retryLoop_exhausted) auto
  from assms(1) lt obtain e where "operation maxRetries = Inl e" by blast
  then show "\<exists>e. operation maxRetries = Inl e
      \<and> outcome (retryOperation operation maxRetries baseDelay) = Inl e"
    by (simp add: run)
  show "calls (retryOperation operation maxRetries baseDelay) = maxRetries + 1"
    by (simp add: run)
qed

lemma transient_429: "isTransient (retryMsg (newError (js ''HTTP 429 Too Many Requests'')))"
  by (simp add: isTransient_def retryMsg_def newError_def js_def)

theorem retryOperation_transient_failures_witness:
  "outcome (retryOperation (flakyOperation 2) 3 2000) = Inr 7
   \<and> calls (retryOperation (flakyOperation 2) 3 2000) = 3
   \<and> 6000 \<le> sum_list (sleeps (retryOperation (flakyOperation 2) 3 2000))
   \<and> outcome (retryOperation (flakyOperation 5) 3 2000)
       = Inl (newError (js ''HTTP 429 Too Many Requests''))
   \<and> calls (retryOperation (flakyOperation 5) 3 2000) = 4"
proof -
  have h2: "\<forall>i<2. \<exists>e. flakyOperation 2 i = Inl e \<and> isTransient (retryMsg e)"
    by (simp add: flakyOperation_def transient_429)
  have h5: "\<forall>i<5. \<exists>e. flakyOperation 5 i = Inl e \<and> isTransient (retryMsg e)"
    by (simp add: flakyOperation_def transient_429)
  have s2: "flakyOperation 2 2 = Inr 7" and s5: "flakyOperation 5 5 = Inr 7"
    and e3: "flakyOperation 5 3 = Inl (newError (js ''HTTP 429 Too Many Requests''))"
    by (simp_all add: flakyOperation_def)
  show ?thesis
    using retryOperation_transient_failures [OF h2 s2, of 3 2000]
      retryOperation_transient_failures [OF h5 s5, of 3 2000]
    by (simp add: e3)
qed

text \<open>
  C2.  If the first invocation of the operation fails with an error that carries none of
  the transient markers, \<^verbatim>\<open>retryOperation\<close> throws that error after exactly one
  invocation and without requesting any delay.
\<close>

theorem retryOperation_non_transient:
  assumes "operation 0 = Inl e" and "\<not> isTransient (retryMsg e)"
  shows "retryOperation operation maxRetries baseDelay =
           \<lparr>outcome = Inl e, calls = 1, sleeps = []\<rparr>"
  unfolding retryOperation_def
  using assms by (simp add: retryLoop_rethrow)

theorem retryOperation_non_transient_witness:
  "retryOperation deniedOperation 3 2000 =
     \<lparr>outcome = Inl (newError (js ''HTTP 401 Unauthorized'')), calls = 1, sleeps = []\<rparr>"
proof -
  have h: "\<not> isTransient (retryMsg (newError (js ''HTTP 401 Unauthorized'')))"
    by (simp add: isTransient_def retryMsg_def newError_def js_def)
  show ?thesis
    using retryOperation_non_transient [of deniedOperation, OF _ h, of 3 2000]
    by (simp add: deniedOperation_def)
qed


section \<open>Properties of the endpoint normalizer\<close>

lemma endsWith_iff_suffix: "endsWith s suf \<longleftrightarrow> suffix suf s"
proof
  assume "endsWith s suf"
  then have "s = take (length s - length suf) s @ suf"
    by (metis append_take_drop_id endsWith_def)
  then show "suffix suf s" by (metis suffixI)
next
  assume "suffix suf s"
  then obtain zs where "s = zs @ suf" by (auto simp: suffix_def)
  then show "endsWith s suf" by (simp add: endsWith_def)
qed

lemma trim_fixed:
  assumes "s \<noteq> []" "\<not> isWhiteSpace (hd s)" "\<not> isWhiteSpace (last s)"
  shows "trim s = s"
proof -
  have 1: "dropWhile isWhiteSpace s = s" using assms by (cases s) auto
  have "rev s \<noteq> []" "hd (rev s) = last s" using assms by (simp_all add: hd_rev)
  then have 2: "dropWhile isWhiteSpace (rev s) = rev s" using assms by (simp add: dropWhile_eq_self_iff)
  show ?thesis by (simp add: trim_def 1 2)
qed

lemma stripTrailingSlashes_fixed:
  assumes "s = [] \<or> last s \<noteq> 0x2F"
  shows "stripTrailingSlashes s = s"
proof (cases "s = []")
  case True then show ?thesis by (simp add: stripTrailingSlashes_def)
next
  case False
  then have "rev s \<noteq> []" "hd (rev s) = last s" by (simp_all add: hd_rev)
  then have "dropWhile (\<lambda>c. c = 0x2F) (rev s) = rev s" using assms False by (simp add: dropWhile_eq_self_iff)
  then show ?thesis by (simp add: stripTrailingSlashes_def)
qed

lemma stripTrailingSlashes_replicate:
  "stripTrailingSlashes (s @ replicate n 0x2F) = stripTrailingSlashes s"
proof -
  have "dropWhile (\<lambda>c. c = 0x2F) (replicate n (0x2F::jschar) @ rev s) = dropWhile (\<lambda>c. c = 0x2F) (rev s)"
    by (rule dropWhile_append2) auto
  then show ?thesis by (simp add: stripTrailingSlashes_def)
qed


lemma endsWith_last: "endsWith s suf \<Longrightarrow> suf \<noteq> [] \<Longrightarrow> last s = last suf"
  by (auto simp: endsWith_iff_suffix suffix_def)

lemma endsWith_append: "endsWith (b @ suf) suf"
  by (simp add: endsWith_def)

lemma cleanBaseUrl_plain:
  assumes b: "plainBase b" and sfx: "sfx \<in> {js ''/v1beta'', js ''/v1'', []}"
  shows "cleanBaseUrl (Some (b @ sfx @ replicate n 0x2F)) =
           (if b = officialEndpoint then None else Some b)"
proof -
  let ?u = "b @ sfx @ replicate n 0x2F"
  from b have ne: "b \<noteq> []" and hd: "\<not> isWhiteSpace (hd b)" and la: "\<not> isWhiteSpace (last b)"
    and sl: "last b \<noteq> 0x2F" and nb: "\<not> endsWith b (js ''/v1beta'')" and nv: "\<not> endsWith b (js ''/v1'')"
    by (simp_all add: plainBase_def)
  have last_bs: "last (b @ sfx) \<noteq> 0x2F \<and> \<not> isWhiteSpace (last (b @ sfx))"
    using sfx sl la by (auto simp: js_def isWhiteSpace_def)
  have u_ne: "?u \<noteq> []" using ne by simp
  have hd_u: "hd ?u = hd b" using ne by simp
  have last_u: "\<not> isWhiteSpace (last ?u)"
  proof (cases n)
    case 0
    then show ?thesis using last_bs by simp
  next
    case (Suc m)
    then have "last ?u = 0x2F" by simp
    then show ?thesis by (simp add: isWhiteSpace_def)
  qed
  have hd_u': "\<not> isWhiteSpace (hd ?u)" unfolding hd_u by (rule hd)
  have t: "trim ?u = ?u" by (rule trim_fixed [OF u_ne hd_u' last_u])
  have s1: "stripTrailingSlashes ?u = b @ sfx"
    using stripTrailingSlashes_replicate [of "b @ sfx" n] stripTrailingSlashes_fixed [of "b @ sfx"] last_bs
    by simp
  have cut: "(if endsWith (b @ sfx) (js ''/v1beta'') then take (length (b @ sfx) - 7) (b @ sfx)
              else if endsWith (b @ sfx) (js ''/v1'') then take (length (b @ sfx) - 3) (b @ sfx)
              else b @ sfx) = b"
  proof -
    consider "sfx = js ''/v1beta''" | "sfx = js ''/v1''" | "sfx = []" using sfx by auto
    then show ?thesis
    proof cases
      case 1
      then have "endsWith (b @ sfx) (js ''/v1beta'')" by (simp add: endsWith_append)
      moreover have "length sfx = 7" using 1 by (simp add: js_def)
      ultimately show ?thesis by simp
    next
      case 2
      have "\<not> endsWith (b @ sfx) (js ''/v1beta'')"
        using endsWith_last [of "b @ sfx" "js ''/v1beta''"] 2 by (auto simp: js_def)
      moreover have "endsWith (b @ sfx) (js ''/v1'')" using 2 by (simp add: endsWith_append)
      moreover have "length sfx = 3" using 2 by (simp add: js_def)
      ultimately show ?thesis by simp
    next
      case 3
      then show ?thesis using nb nv by simp
    qed
  qed
  have s2: "stripTrailingSlashes b = b" using sl by (simp add: stripTrailingSlashes_fixed)
  have c: "\<not> (?u = [] \<or> ?u = [])" using u_ne by simp
  show ?thesis
    by (simp only: cleanBaseUrl_def option.case Let_def t s1 cut s2 if_not_P [OF c])
qed

text \<open>
  C5, as the code has it.  For a base address \<open>b\<close> in normal form, followed by
  \<^verbatim>\<open>/v1beta\<close>, \<^verbatim>\<open>/v1\<close> or nothing and then by any number of slashes, the normalizer
  returns \<open>b\<close> (no override when \<open>b\<close> is the official endpoint): exactly the one suffix
  is removed, and normalizing the result again changes nothing.
\<close>

theorem cleanBaseUrl_idempotent_on_plain_base:
  assumes "plainBase b" and "sfx \<in> {js ''/v1beta'', js ''/v1'', []}"
  shows "cleanBaseUrl (Some (b @ sfx @ replicate n 0x2F)) =
           (if b = officialEndpoint then None else Some b)
       \<and> cleanBaseUrl (cleanBaseUrl (Some (b @ sfx @ replicate n 0x2F))) =
           cleanBaseUrl (Some (b @ sfx @ replicate n 0x2F))"
proof -
  have "cleanBaseUrl (Some b) = (if b = officialEndpoint then None else Some b)"
    using cleanBaseUrl_plain [OF assms(1), of "[]" 0] by simp
  moreover have "cleanBaseUrl None = None" by (simp add: cleanBaseUrl_def)
  ultimately show ?thesis using cleanBaseUrl_plain [OF assms, of n] by simp
qed

theorem cleanBaseUrl_idempotent_on_plain_base_witness:
  "cleanBaseUrl (Some (js ''https://api.example.com'' @ js ''/v1'' @ replicate 3 0x2F)) =
     Some (js ''https://api.example.com'')
   \<and> cleanBaseUrl (cleanBaseUrl
         (Some (js ''https://api.example.com'' @ js ''/v1'' @ replicate 3 0x2F))) =
       cleanBaseUrl (Some (js ''https://api.example.com'' @ js ''/v1'' @ replicate 3 0x2F))"
proof -
  have p: "plainBase (js ''https://api.example.com'')"
    by (simp add: plainBase_def endsWith_def js_def isWhiteSpace_def)
  have d: "js ''https://api.example.com'' \<noteq> officialEndpoint"
    by (simp add: officialEndpoint_def js_def)
  have m: "js ''/v1'' \<in> {js ''/v1beta'', js ''/v1'', []}" by simp
  have r: "(if js ''https://api.example.com'' = officialEndpoint then None
            else Some (js ''https://api.example.com'')) = Some (js ''https://api.example.com'')"
    using d by simp
  show ?thesis
    using cleanBaseUrl_idempotent_on_plain_base [OF p m, of 3] unfolding r .
qed

text \<open>
  C5, as the specification states it, fails when the base itself ends in a version suffix:
  one pass removes one suffix, and the second pass removes the next one.
\<close>

theorem cleanBaseUrl_not_idempotent:
  "cleanBaseUrl (Some (js ''http://x/v1/v1beta'')) = Some (js ''http://x/v1'')
   \<and> cleanBaseUrl (cleanBaseUrl (Some (js ''http://x/v1/v1beta''))) = Some (js ''http://x'')
   \<and> cleanBaseUrl (cleanBaseUrl (Some (js ''http://x/v1/v1beta'')))
       \<noteq> cleanBaseUrl (Some (js ''http://x/v1/v1beta''))"
  by (simp add: cleanBaseUrl_def trim_def stripTrailingSlashes_def endsWith_def js_def
      isWhiteSpace_def officialEndpoint_def Let_def)

text \<open>The other conditions on the base are needed as well: an address made of slashes only
  is normalized to the empty string, and the empty string to no override.\<close>

lemma cleanBaseUrl_slashes_only:
  "cleanBaseUrl (Some (js ''//'')) = Some [] \<and> cleanBaseUrl (Some []) = None"
  by (simp add: cleanBaseUrl_def trim_def stripTrailingSlashes_def endsWith_def js_def
      isWhiteSpace_def officialEndpoint_def Let_def)


section \<open>Properties of the credential normalizer\<close>

lemma stripBearerPrefix_without_whitespace:
  assumes "\<forall>c \<in> set s. \<not> isWhiteSpace c"
  shows "stripBearerPrefix s = s"
proof -
  have "drop 6 s \<noteq> [] \<Longrightarrow> \<not> isWhiteSpace (hd (drop 6 s))"
    using assms by (metis hd_in_set in_set_dropD)
  then show ?thesis by (auto simp: stripBearerPrefix_def Let_def)
qed

lemma cleanApiKey_svc_is_filter:
  "cleanApiKey Services_geminiService key = removeWhiteSpace key"
proof -
  have "\<forall>c \<in> set (removeWhiteSpace key). \<not> isWhiteSpace c"
    by (simp add: removeWhiteSpace_def)
  then have "stripBearerPrefix (removeWhiteSpace key) = removeWhiteSpace key"
    by (rule stripBearerPrefix_without_whitespace)
  then show ?thesis by (simp add: removeWhiteSpace_def)
qed

text \<open>
  C4.  The earlier revision removes every white-space character first, so the prefix
  pattern, which asks for white space after the word, never matches, and the word
  \<^verbatim>\<open>Bearer\<close> stays.  The later revision only trims.
\<close>

theorem cleanApiKey_bearer_sample:
  "cleanApiKey Services_geminiService (js ''  Bearer sk-abc123'' @ [0xFEFF] @ js '' '')
     = js ''Bearersk-abc123''
   \<and> cleanApiKey Unnamed_part_000 (js ''  Bearer sk-abc123'' @ [0xFEFF] @ js '' '')
     = js ''Bearer sk-abc123''"
  by (simp add: stripBearerPrefix_def asciiLower_def Let_def removeWhiteSpace_def trim_def
      isWhiteSpace_def js_def)

text \<open>The prefix pattern itself does what it is meant to do.\<close>

lemma stripBearerPrefix_sample: "stripBearerPrefix (js ''BEARER  sk-abc123'') = js ''sk-abc123''"
  by (simp add: stripBearerPrefix_def asciiLower_def isWhiteSpace_def js_def Let_def)

lemma cleanApiKey_empty: "cleanApiKey rv [] = []"
  by (cases rv) simp_all

lemma cleanApiKey_svc_removes_whitespace:
  "\<forall>c \<in> set (cleanApiKey Services_geminiService key). \<not> isWhiteSpace c \<and> c \<noteq> 0xFEFF"
  by (simp add: cleanApiKey_svc_is_filter removeWhiteSpace_def del: cleanApiKey.simps)


section \<open>Properties of the error classifier\<close>

lemma errorText_newError: "errorText (newError m) = m"
  by (simp add: errorText_def newError_def)

text \<open>
  C6, as the code has it.  The patterns are tried in a fixed order, and 400, 401, 403 and
  404 come before 429: a message that contains 429 and none of these four gets the
  rate-limit text.  A message that contains none of the patterns is passed through.  In
  every case the result starts with the context label and a colon.
\<close>

theorem formatError_rate_limit:
  "(js_includes (errorText error) (js ''429'')
      \<and> \<not> js_includes (errorText error) (js ''400'')
      \<and> \<not> js_includes (errorText error) (js ''401'')
      \<and> \<not> js_includes (errorText error) (js ''403'')
      \<and> \<not> js_includes (errorText error) (js ''404'')
    \<longrightarrow> formatError rv error context = context @ js '': '' @ msg429)
   \<and> (\<not> js_includes (errorText error) (js ''400'')
      \<and> \<not> js_includes (errorText error) (js ''401'')
      \<and> \<not> js_includes (errorText error) (js ''403'')
      \<and> \<not> js_includes (errorText error) (js ''404'')
      \<and> \<not> js_includes (errorText error) (js ''429'')
      \<and> \<not> js_includes (errorText error) (js ''500'')
      \<and> \<not> js_includes (errorText error) (js ''503'')
      \<and> \<not> js_includes (errorText error) (js ''Failed to fetch'')
      \<and> \<not> js_includes (errorText error) (js ''NetworkError'')
    \<longrightarrow> formatError rv error context = context @ js '': '' @ errorText error)
   \<and> prefix (context @ js '': '') (formatError rv error context)"
  by (simp add: formatError_def classify_def)

theorem formatError_rate_limit_witness:
  "formatError Unnamed_part_000 (newError (js ''HTTP 429 Too Many Requests'')) (js ''ctx'')
     = js ''ctx: '' @ msg429
   \<and> formatError Unnamed_part_000 (newError (js ''boom'')) (js ''ctx'') = js ''ctx: boom''"
  using formatError_rate_limit
      [of "newError (js ''HTTP 429 Too Many Requests'')" Unnamed_part_000 "js ''ctx''"]
    formatError_rate_limit [of "newError (js ''boom'')" Unnamed_part_000 "js ''ctx''"]
  by (simp add: errorText_newError js_def)

text \<open>
  C6, as the specification states it, fails for a message that contains 429 together
  with an earlier pattern: the earlier pattern decides.
\<close>

theorem formatError_429_shadowed:
  "js_includes (errorText (newError (js ''400 429''))) (js ''429'')
   \<and> formatError Unnamed_part_000 (newError (js ''400 429'')) (js ''ctx'')
       = js ''ctx: '' @ msg400 Unnamed_part_000
   \<and> formatError Unnamed_part_000 (newError (js ''400 429'')) (js ''ctx'')
       \<noteq> js ''ctx: '' @ msg429"
  by (simp add: formatError_def classify_def errorText_def newError_def msg400_def msg429_def
      js_def)


section \<open>Properties of the connectivity prober\<close>

lemma probeLoop_skip:
  "probeLoop rv ping ms lastError tried =
   probeLoop rv ping (filter (\<lambda>m. \<not> skipped rv m) ms) lastError tried"
  by (induction ms arbitrary: lastError tried) (auto simp: skipped_def split: sum.splits)

lemma probeLoop_first_success:
  assumes "\<forall>m \<in> set pre. \<not> skipped rv m \<and> isl (ping m)" and "\<not> skipped rv B" and "ping B = Inr r"
  shows "probeLoop rv ping (pre @ B # post) lastError tried =
           \<lparr>probeOutcome = Inr B, attempts = tried @ map (\<lambda>m. (m, False)) pre @ [(B, True)]\<rparr>"
  using assms
  by (induction pre arbitrary: lastError tried) (auto simp: skipped_def isl_def)

lemma probeLoop_all_fail:
  assumes "\<forall>m \<in> set ms. \<not> skipped rv m \<and> isl (ping m)" and "ms \<noteq> []"
  shows "\<exists>e. ping (last ms) = Inl e \<and>
           probeLoop rv ping ms lastError tried =
             \<lparr>probeOutcome = Inl (newError (formatError rv e ctxAllFailed)),
              attempts = tried @ map (\<lambda>m. (m, False)) ms\<rparr>"
  using assms
proof (induction ms arbitrary: lastError tried)
  case Nil
  then show ?case by simp
next
  case (Cons m ms)
  from Cons.prems obtain e where e: "ping m = Inl e" and ns: "\<not> skipped rv m"
    by (auto simp: isl_def)
  show ?case
  proof (cases "ms = []")
    case True
    with e ns show ?thesis by (auto simp: skipped_def)
  next
    case False
    with Cons.IH [of e "tried @ [(m, False)]"] Cons.prems e ns show ?thesis
      by (auto simp: skipped_def)
  qed
qed

lemma fold_insert_firstSeen:
  "fold (\<lambda>x seen. if x \<in> set seen then seen else seen @ [x]) xs acc =
     acc @ filter (\<lambda>y. y \<notin> set acc) (firstSeen xs)"
proof (induction xs arbitrary: acc)
  case Nil
  then show ?case by simp
next
  case (Cons x xs)
  show ?case
  proof (cases "x \<in> set acc")
    case True
    then have "filter (\<lambda>y. y \<notin> set acc) (filter (\<lambda>y. y \<noteq> x) (firstSeen xs)) =
        filter (\<lambda>y. y \<notin> set acc) (firstSeen xs)"
      by (auto intro: filter_cong)
    with True Cons.IH [of acc] show ?thesis by simp
  next
    case False
    have "filter (\<lambda>y. y \<notin> set (acc @ [x])) (firstSeen xs) =
        filter (\<lambda>y. y \<notin> set acc) (filter (\<lambda>y. y \<noteq> x) (firstSeen xs))"
      by (auto intro: filter_cong)
    with False Cons.IH [of "acc @ [x]"] show ?thesis by simp
  qed
qed

lemma newSet_firstSeen: "newSet xs = firstSeen xs"
  by (simp add: newSet_def fold_insert_firstSeen)

lemma set_firstSeen: "set (firstSeen xs) = set xs"
  by (induction xs) auto

lemma distinct_firstSeen: "distinct (firstSeen xs)"
  by (induction xs) auto

lemma firstSeen_append:
  "firstSeen (xs @ ys) = firstSeen xs @ filter (\<lambda>y. y \<notin> set xs) (firstSeen ys)"
proof (induction xs)
  case Nil
  then show ?case by simp
next
  case (Cons x xs)
  have "filter (\<lambda>y. y \<noteq> x) (filter (\<lambda>y. y \<notin> set xs) (firstSeen ys)) =
      filter (\<lambda>y. y \<notin> set (x # xs)) (firstSeen ys)"
    by (auto intro: filter_cong)
  with Cons show ?case by simp
qed

lemma firstSeen_distinct: "distinct xs \<Longrightarrow> firstSeen xs = xs"
proof (induction xs)
  case Nil
  then show ?case by simp
next
  case (Cons x xs)
  then have "filter (\<lambda>y. y \<noteq> x) xs = xs" by (auto intro: filter_True)
  with Cons show ?case by simp
qed

lemma distinct_defaults: "distinct (map modelValue DEFAULT_TEXT_MODELS)"
  by (simp add: DEFAULT_TEXT_MODELS_def js_def)

lemma modelsToTry_part_000:
  "modelsToTry Unnamed_part_000 textModels priorityModels =
     newSet priorityModels @
     filter (\<lambda>m. m \<notin> set priorityModels) (map modelValue DEFAULT_TEXT_MODELS)"
  by (simp add: modelsToTry_def newSet_firstSeen firstSeen_append firstSeen_distinct distinct_defaults)

text \<open>The later revision always has a candidate: the built-in names are not empty.\<close>

lemma candidates_part_000_nonempty:
  "candidates Unnamed_part_000 textModels priorityModels \<noteq> []"
proof -
  have "js ''gemini-2.5-pro'' \<in> set (modelsToTry Unnamed_part_000 textModels priorityModels)"
    by (simp add: modelsToTry_def newSet_firstSeen set_firstSeen DEFAULT_TEXT_MODELS_def)
  moreover have "\<not> skipped Unnamed_part_000 (js ''gemini-2.5-pro'')"
    by (simp add: skipped_def js_def)
  ultimately have "js ''gemini-2.5-pro'' \<in> set (candidates Unnamed_part_000 textModels priorityModels)"
    by (simp add: candidates_def)
  then show ?thesis by auto
qed

text \<open>
  C7, as the code has it.  With a non-empty credential: when the candidates before \<open>B\<close>
  all fail and \<open>B\<close> answers, the prober returns \<open>B\<close> after one failed attempt for each of
  them and one successful attempt, and asks for no later candidate (for the candidates
  \<open>A, B, C\<close> that is one failed attempt, not two).  When every candidate fails, it throws
  the classified error of the last candidate.  The later revision tries the priority
  models first and then the built-in ones, each once, in first-seen order.
\<close>

theorem testApiConnection_first_success:
  assumes "cleanApiKey rv key \<noteq> []"
    and "ai = createClient rv (cleanApiKey rv key) (cleanBaseUrl (Some url))"
  shows "(\<forall>pre B post r.
            candidates rv textModels priorityModels = pre @ B # post
            \<and> (\<forall>m \<in> set pre. isl (ping ai m)) \<and> ping ai B = Inr r \<longrightarrow>
            testApiConnection rv textModels ping key url priorityModels =
              \<lparr>probeOutcome = Inr B, attempts = map (\<lambda>m. (m, False)) pre @ [(B, True)]\<rparr>)
       \<and> (candidates rv textModels priorityModels \<noteq> []
            \<and> (\<forall>m \<in> set (candidates rv textModels priorityModels). isl (ping ai m)) \<longrightarrow>
            (\<exists>e. ping ai (last (candidates rv textModels priorityModels)) = Inl e
               \<and> testApiConnection rv textModels ping key url priorityModels =
                   \<lparr>probeOutcome = Inl (newError (formatError rv e ctxAllFailed)),
                    attempts = map (\<lambda>m. (m, False)) (candidates rv textModels priorityModels)\<rparr>))
       \<and> modelsToTry Unnamed_part_000 textModels priorityModels =
            newSet priorityModels @
            filter (\<lambda>m. m \<notin> set priorityModels) (map modelValue DEFAULT_TEXT_MODELS)
       \<and> distinct (modelsToTry Unnamed_part_000 textModels priorityModels)"
proof -
  let ?cs = "candidates rv textModels priorityModels"
  have run: "testApiConnection rv textModels ping key url priorityModels =
      probeLoop rv (ping ai) ?cs nullValue []"
    using assms
    by (simp add: testApiConnection_def Let_def candidates_def probeLoop_skip [symmetric])
  have ns: "\<forall>m \<in> set ?cs. \<not> skipped rv m" by (simp add: candidates_def)
  have first: "testApiConnection rv textModels ping key url priorityModels =
      \<lparr>probeOutcome = Inr B, attempts = map (\<lambda>m. (m, False)) pre @ [(B, True)]\<rparr>"
    if "?cs = pre @ B # post" "\<forall>m \<in> set pre. isl (ping ai m)" "ping ai B = Inr r"
    for pre B post r
  proof -
    have "\<forall>m \<in> set pre. \<not> skipped rv m \<and> isl (ping ai m)" and "\<not> skipped rv B"
      using ns that by auto
    from probeLoop_first_success [OF this that(3), of post nullValue "[]"] that(1)
    show ?thesis by (simp add: run)
  qed
  have none: "\<exists>e. ping ai (last ?cs) = Inl e
      \<and> testApiConnection rv textModels ping key url priorityModels =
          \<lparr>probeOutcome = Inl (newError (formatError rv e ctxAllFailed)),
           attempts = map (\<lambda>m. (m, False)) ?cs\<rparr>"
    if "?cs \<noteq> []" "\<forall>m \<in> set ?cs. isl (ping ai m)"
  proof -
    have "\<forall>m \<in> set ?cs. \<not> skipped rv m \<and> isl (ping ai m)" using ns that by auto
    from probeLoop_all_fail [OF this that(1), of nullValue "[]"] show ?thesis
      by (simp add: run)
  qed
  have "distinct (modelsToTry Unnamed_part_000 textModels priorityModels)"
    by (simp add: modelsToTry_def newSet_firstSeen distinct_firstSeen)
  with first none modelsToTry_part_000 show ?thesis by blast
qed

lemma candidates_sample:
  "candidates Unnamed_part_000 [] [js ''model-a'', js ''model-b'', js ''model-c''] =
     [js ''model-a''] @ js ''model-b'' #
     [js ''model-c'', js ''gemini-2.5-pro'', js ''gemini-3-pro-preview'', js ''gemini-1.5-pro'',
      js ''gemini-2.5-flash'']"
  by (simp add: candidates_def skipped_def modelsToTry_def newSet_def DEFAULT_TEXT_MODELS_def js_def)

lemma candidates_default:
  "candidates Unnamed_part_000 [] [] =
     [js ''gemini-2.5-pro'', js ''gemini-3-pro-preview'', js ''gemini-1.5-pro'',
      js ''gemini-2.5-flash'']"
  by (simp add: candidates_def skipped_def modelsToTry_def newSet_def DEFAULT_TEXT_MODELS_def js_def)

lemma key_sample: "cleanApiKey Unnamed_part_000 (js ''sk-abc123'') \<noteq> []"
  by (simp add: trim_def isWhiteSpace_def js_def)

theorem testApiConnection_first_success_witness:
  "testApiConnection Unnamed_part_000 [] pingOnlyB (js ''sk-abc123'') (js ''https://proxy.example/v1'')
     [js ''model-a'', js ''model-b'', js ''model-c''] =
     \<lparr>probeOutcome = Inr (js ''model-b''),
      attempts = [(js ''model-a'', False), (js ''model-b'', True)]\<rparr>
   \<and> probeOutcome (testApiConnection Unnamed_part_000 [] pingNothing (js ''sk-abc123'')
       (js ''https://proxy.example/v1'') []) =
     Inl (newError (formatError Unnamed_part_000
       (newError (js ''404 model not found: gemini-2.5-flash'')) ctxAllFailed))"
proof -
  have a: "isl (pingOnlyB ai (js ''model-a''))" for ai
    by (simp add: pingOnlyB_def js_def)
  have b: "pingOnlyB ai (js ''model-b'') = Inr \<lparr>responseText = Some (js ''Pong'')\<rparr>" for ai
    by (simp add: pingOnlyB_def)
  have n: "isl (pingNothing ai m)" for ai m
    by (simp add: pingNothing_def)
  have l: "pingNothing ai (js ''gemini-2.5-flash'') =
      Inl (newError (js ''404 model not found: gemini-2.5-flash''))" for ai
    by (simp add: pingNothing_def js_def)
  let ?ai = "createClient Unnamed_part_000 (cleanApiKey Unnamed_part_000 (js ''sk-abc123''))
      (cleanBaseUrl (Some (js ''https://proxy.example/v1'')))"
  note B = testApiConnection_first_success [OF key_sample refl,
      of "[]" "[js ''model-a'', js ''model-b'', js ''model-c'']" pingOnlyB
         "js ''https://proxy.example/v1''"]
  note N = testApiConnection_first_success [OF key_sample refl, of "[]" "[]" pingNothing
         "js ''https://proxy.example/v1''"]
  have "candidates Unnamed_part_000 [] [js ''model-a'', js ''model-b'', js ''model-c''] =
          [js ''model-a''] @ js ''model-b'' #
          [js ''model-c'', js ''gemini-2.5-pro'', js ''gemini-3-pro-preview'',
           js ''gemini-1.5-pro'', js ''gemini-2.5-flash'']
        \<and> (\<forall>m \<in> set [js ''model-a'']. isl (pingOnlyB ?ai m))
        \<and> pingOnlyB ?ai (js ''model-b'') = Inr \<lparr>responseText = Some (js ''Pong'')\<rparr>"
    using candidates_sample a b by simp
  from B [THEN conjunct1, rule_format, OF this]
  have first: "testApiConnection Unnamed_part_000 [] pingOnlyB (js ''sk-abc123'')
      (js ''https://proxy.example/v1'') [js ''model-a'', js ''model-b'', js ''model-c''] =
      \<lparr>probeOutcome = Inr (js ''model-b''),
       attempts = [(js ''model-a'', False), (js ''model-b'', True)]\<rparr>"
    by simp
  have "candidates Unnamed_part_000 [] [] \<noteq> []
        \<and> (\<forall>m \<in> set (candidates Unnamed_part_000 [] []). isl (pingNothing ?ai m))"
    by (simp add: candidates_default n)
  from N [THEN conjunct2, THEN conjunct1, rule_format, OF this]
  obtain e where e: "pingNothing ?ai (last (candidates Unnamed_part_000 [] [])) = Inl e"
    and r: "testApiConnection Unnamed_part_000 [] pingNothing (js ''sk-abc123'')
        (js ''https://proxy.example/v1'') [] =
        \<lparr>probeOutcome = Inl (newError (formatError Unnamed_part_000 e ctxAllFailed)),
         attempts = map (\<lambda>m. (m, False)) (candidates Unnamed_part_000 [] [])\<rparr>"
    by blast
  have "last (candidates Unnamed_part_000 [] []) = js ''gemini-2.5-flash''"
    by (simp add: candidates_default)
  with e l have "e = newError (js ''404 model not found: gemini-2.5-flash'')" by simp
  with r first show ?thesis by simp
qed

text \<open>
  C7, as the specification states it, fails: with the candidates \<open>A, B, C\<close> of which
  only \<open>B\<close> answers, there is one failed attempt before the successful one.
\<close>

theorem testApiConnection_one_failure:
  "probeOutcome (testApiConnection Unnamed_part_000 [] pingOnlyB (js ''sk-abc123'')
      (js ''https://proxy.example/v1'') [js ''model-a'', js ''model-b'', js ''model-c''])
     = Inr (js ''model-b'')
   \<and> failedAttempts (testApiConnection Unnamed_part_000 [] pingOnlyB (js ''sk-abc123'')
      (js ''https://proxy.example/v1'') [js ''model-a'', js ''model-b'', js ''model-c'']) = 1
   \<and> successfulAttempts (testApiConnection Unnamed_part_000 [] pingOnlyB (js ''sk-abc123'')
      (js ''https://proxy.example/v1'') [js ''model-a'', js ''model-b'', js ''model-c'']) = 1
   \<and> failedAttempts (testApiConnection Unnamed_part_000 [] pingOnlyB (js ''sk-abc123'')
      (js ''https://proxy.example/v1'') [js ''model-a'', js ''model-b'', js ''model-c'']) \<noteq> 2"
  by (simp add: testApiConnection_def trim_def isWhiteSpace_def modelsToTry_def newSet_def
      DEFAULT_TEXT_MODELS_def pingOnlyB_def js_def Let_def failedAttempts_def
      successfulAttempts_def)


section \<open>Properties of the stored settings\<close>

lemma map_of_spread:
  "distinct (map fst source) \<Longrightarrow> map_of (spread target source) = map_of target ++ map_of source"
proof (induction source arbitrary: target)
  case Nil
  then show ?case by (simp add: spread_def)
next
  case (Cons p source)
  obtain k v where p: "p = (k, v)" by (cases p)
  from Cons.prems p have k: "map_of source k = None" and d: "distinct (map fst source)"
    by (auto simp: map_of_eq_None_iff)
  have "spread target (p # source) = spread (AList.update k v target) source"
    by (simp add: spread_def p)
  then have "map_of (spread target (p # source)) =
      map_of (AList.update k v target) ++ map_of source"
    by (simp only: Cons.IH [OF d])
  then have "map_of (spread target (p # source)) = (map_of target)(k \<mapsto> v) ++ map_of source"
    by (simp only: update_conv')
  also have "\<dots> = map_of target ++ map_of (p # source)"
    using k by (auto simp: p map_add_def fun_eq_iff split: option.splits)
  finally show ?case .
qed

lemma keys_spread: "fst ` set (spread target source) = fst ` set target \<union> fst ` set source"
proof (induction source arbitrary: target)
  case Nil
  then show ?case by (simp add: spread_def)
next
  case (Cons p source)
  obtain k v where p: "p = (k, v)" by (cases p)
  have "spread target (p # source) = spread (AList.update k v target) source"
    by (simp add: spread_def p)
  then show ?case using Cons.IH [of "AList.update k v target"] by (auto simp: p dom_update)
qed

lemma default_keys:
  "fst ` set DEFAULT_SETTINGS =
     {js ''apiKey'', js ''baseUrl'', js ''textModel'', js ''imageModel'', js ''customTextModels'',
      js ''jianYingPath'', js ''outputImgPath'', js ''themeColor''}"
  by (simp add: DEFAULT_SETTINGS_def)

lemma default_no_apiKeys: "js ''apiKeys'' \<notin> fst ` set DEFAULT_SETTINGS"
  by (simp add: DEFAULT_SETTINGS_def js_def)

lemma default_customTextModels: "map_of DEFAULT_SETTINGS (js ''customTextModels'') = Some (JArray [])"
  by (simp add: DEFAULT_SETTINGS_def js_def)

lemma getSettingsSync_object:
  "d \<noteq> [] \<Longrightarrow> parse d = Inr (JObject stored) \<Longrightarrow>
   getSettingsSync parse (Some d) = Inr (spread DEFAULT_SETTINGS (repaired stored))"
  by (simp add: getSettingsSync_def repaired_def Let_def)

lemma repaired_distinct: "distinct (map fst props) \<Longrightarrow> distinct (map fst (repaired props))"
  by (simp add: repaired_def Let_def distinct_update distinct_delete)

lemma repaired_keys:
  "fst ` set (repaired props) \<subseteq> insert (js ''customTextModels'') (fst ` set props - {js ''apiKeys''})"
proof -
  have "fst ` set (AList.delete (js ''apiKeys'') props) = fst ` set props - {js ''apiKeys''}"
    by (induction props) (auto simp: AList.delete_eq)
  then show ?thesis
    by (auto simp: repaired_def Let_def dom_update)
qed

lemma repaired_lookup:
  "k \<noteq> js ''apiKeys'' \<Longrightarrow> k \<noteq> js ''customTextModels'' \<Longrightarrow>
   map_of (repaired props) k = map_of props k"
  by (simp add: repaired_def Let_def update_conv' delete_conv')

lemma repaired_customTextModels:
  "js ''customTextModels'' \<notin> fst ` set props \<Longrightarrow>
   map_of (repaired props) (js ''customTextModels'') = Some (JArray [])"
proof -
  have ne: "js ''customTextModels'' \<noteq> js ''apiKeys''" by (simp add: js_def)
  assume "js ''customTextModels'' \<notin> fst ` set props"
  then have "map_of props (js ''customTextModels'') = None" by (simp add: map_of_eq_None_iff)
  then show ?thesis
    using ne by (simp add: repaired_def Let_def update_conv' delete_conv')
qed

lemma repaired_customTextModels_stored:
  assumes "map_of props (js ''customTextModels'') = Some v"
  shows "map_of (repaired props) (js ''customTextModels'') =
           Some (if truthy v then v else JArray [])"
proof -
  have ne: "js ''customTextModels'' \<noteq> js ''apiKeys''" by (simp add: js_def)
  have "map_of (AList.delete (js ''apiKeys'') props) (js ''customTextModels'') = Some v"
    using assms ne by (simp add: delete_conv')
  with assms show ?thesis
    by (simp add: repaired_def Let_def update_conv')
qed

text \<open>
  C9, as the code has it.  For a stored settings object, loading returns an object in
  which every key missing from the store has its default value and the legacy key
  \<^verbatim>\<open>apiKeys\<close> is absent; every other stored key, known or not, keeps its stored value,
  except that a stored \<^verbatim>\<open>customTextModels\<close> with a falsy value becomes the empty array.
\<close>

theorem getSettingsSync_merge:
  assumes "d \<noteq> []" and "parse d = Inr (JObject stored)" and "distinct (map fst stored)"
  shows "\<exists>r. getSettingsSync parse (Some d) = Inr r
           \<and> (\<forall>k. k \<notin> fst ` set stored \<longrightarrow> map_of r k = map_of DEFAULT_SETTINGS k)
           \<and> js ''apiKeys'' \<notin> fst ` set r
           \<and> (\<forall>k \<in> fst ` set stored. k \<noteq> js ''apiKeys'' \<and> k \<noteq> js ''customTextModels'' \<longrightarrow>
                 map_of r k = map_of stored k)
           \<and> (\<forall>v. map_of stored (js ''customTextModels'') = Some v \<longrightarrow>
                 map_of r (js ''customTextModels'') = Some (if truthy v then v else JArray []))"
proof -
  let ?r = "spread DEFAULT_SETTINGS (repaired stored)"
  have m: "map_of ?r = map_of DEFAULT_SETTINGS ++ map_of (repaired stored)"
    using assms(3) by (intro map_of_spread repaired_distinct)
  have backfill: "map_of ?r k = map_of DEFAULT_SETTINGS k" if "k \<notin> fst ` set stored" for k
  proof (cases "k = js ''customTextModels''")
    case True
    with that show ?thesis
      by (simp add: m repaired_customTextModels default_customTextModels)
  next
    case False
    with that repaired_keys [of stored] have "k \<notin> fst ` set (repaired stored)" by auto
    then have "map_of (repaired stored) k = None" by (simp add: map_of_eq_None_iff)
    then show ?thesis by (simp add: m map_add_def)
  qed
  have cleaned: "js ''apiKeys'' \<notin> fst ` set ?r"
  proof -
    have "js ''apiKeys'' \<noteq> js ''customTextModels''" by (simp add: js_def)
    with repaired_keys [of stored] have "js ''apiKeys'' \<notin> fst ` set (repaired stored)" by auto
    with default_no_apiKeys show ?thesis by (simp add: keys_spread)
  qed
  have kept: "map_of ?r k = map_of stored k"
    if "k \<in> fst ` set stored" "k \<noteq> js ''apiKeys''" "k \<noteq> js ''customTextModels''" for k
  proof -
    from that(1) obtain v where "map_of stored k = Some v"
      by (metis map_of_eq_None_iff not_Some_eq)
    with that show ?thesis by (simp add: m repaired_lookup)
  qed
  have models: "map_of ?r (js ''customTextModels'') = Some (if truthy v then v else JArray [])"
    if "map_of stored (js ''customTextModels'') = Some v" for v
    using repaired_customTextModels_stored [OF that] by (simp add: m)
  have "getSettingsSync parse (Some d) = Inr ?r"
    using assms(1,2) by (rule getSettingsSync_object)
  with backfill cleaned kept models show ?thesis by blast
qed


theorem getSettingsSync_merge_witness:
  "\<exists>r. getSettingsSync (parseStored sampleStored) (Some (js ''stored settings'')) = Inr r
     \<and> map_of r (js ''themeColor'') = Some (JString (js ''#f97316''))
     \<and> js ''apiKeys'' \<notin> fst ` set r
     \<and> map_of r (js ''apiKey'') = Some (JString (js ''sk-abc123''))
     \<and> map_of r (js ''customTextModels'') = Some (JArray [JString (js ''my-model'')])"
proof -
  have d: "js ''stored settings'' \<noteq> []" by (simp add: js_def)
  have p: "parseStored sampleStored (js ''stored settings'') = Inr (JObject sampleStored)"
    by (simp add: parseStored_def)
  have u: "distinct (map fst sampleStored)" by (simp add: sampleStored_def js_def)
  from getSettingsSync_merge [of "js ''stored settings''" "parseStored sampleStored" sampleStored,
      OF d p u]
  obtain r where
    r: "getSettingsSync (parseStored sampleStored) (Some (js ''stored settings'')) = Inr r"
    and backfill: "\<forall>k. k \<notin> fst ` set sampleStored \<longrightarrow> map_of r k = map_of DEFAULT_SETTINGS k"
    and cleaned: "js ''apiKeys'' \<notin> fst ` set r"
    and kept: "\<forall>k \<in> fst ` set sampleStored. k \<noteq> js ''apiKeys'' \<and> k \<noteq> js ''customTextModels'' \<longrightarrow>
        map_of r k = map_of sampleStored k"
    and models: "\<forall>v. map_of sampleStored (js ''customTextModels'') = Some v \<longrightarrow>
        map_of r (js ''customTextModels'') = Some (if truthy v then v else JArray [])"
    by blast
  have "map_of sampleStored (js ''customTextModels'') = Some (JArray [JString (js ''my-model'')])"
    by (simp add: sampleStored_def js_def)
  with models have c: "map_of r (js ''customTextModels'') =
      Some (JArray [JString (js ''my-model'')])"
    by fastforce
  have "js ''themeColor'' \<notin> fst ` set sampleStored" by (simp add: sampleStored_def js_def)
  with backfill have "map_of r (js ''themeColor'') = map_of DEFAULT_SETTINGS (js ''themeColor'')"
    by blast
  then have t: "map_of r (js ''themeColor'') = Some (JString (js ''#f97316''))"
    by (simp add: DEFAULT_SETTINGS_def js_def)
  have "js ''apiKey'' \<in> fst ` set sampleStored \<and> js ''apiKey'' \<noteq> js ''apiKeys''
      \<and> js ''apiKey'' \<noteq> js ''customTextModels''"
    by (simp add: sampleStored_def js_def)
  with kept have "map_of r (js ''apiKey'') = map_of sampleStored (js ''apiKey'')" by blast
  then have k: "map_of r (js ''apiKey'') = Some (JString (js ''sk-abc123''))"
    by (simp add: sampleStored_def)
  from r t cleaned k c show ?thesis by blast
qed

text \<open>
  C9, as the specification states it, fails: a stored key that is not a setting, other
  than \<^verbatim>\<open>apiKeys\<close>, is still there after loading.
\<close>

theorem getSettingsSync_keeps_unknown_key:
  "getSettingsSync (parseStored legacyStored) (Some (js ''stored settings'')) =
     Inr (DEFAULT_SETTINGS @ [(js ''legacyFlag'', JBool True)])
   \<and> js ''legacyFlag'' \<notin> fst ` set DEFAULT_SETTINGS"
  by (simp add: getSettingsSync_def parseStored_def legacyStored_def spread_def
      DEFAULT_SETTINGS_def js_def Let_def)



section \<open>More properties of the retry wrapper and the orchestrator\<close>

lemma executeGeminiCall_outcome:
  "outcome (executeGeminiCall rv settings operation contextName) =
     (if cleanApiKey rv (apiKey settings) = [] then Inl (newError msgNoApiKey)
      else case outcome (retryOperation (operation (theClient rv settings)) 3 2000) of
             Inr v \<Rightarrow> Inr v
           | Inl error \<Rightarrow> Inl (newError (formatError rv error contextName)))"
  by (simp add: executeGeminiCall_def theClient_def Let_def split: sum.splits)

lemma retryLoop_mapped:
  "retryLoop (\<lambda>i. case operation i of Inl e \<Rightarrow> Inl e | Inr r \<Rightarrow> Inr (f r))
       maxRetries baseDelay attempt lastError n ws =
   \<lparr>outcome = (case outcome (retryLoop operation maxRetries baseDelay attempt lastError n ws) of
                 Inl e \<Rightarrow> Inl e | Inr r \<Rightarrow> Inr (f r)),
    calls = calls (retryLoop operation maxRetries baseDelay attempt lastError n ws),
    sleeps = sleeps (retryLoop operation maxRetries baseDelay attempt lastError n ws)\<rparr>"
proof (induction operation maxRetries baseDelay attempt lastError n ws rule: retryLoop.induct)
  case (1 operation maxRetries baseDelay attempt lastError n ws)
  show ?case
  proof (cases "attempt \<le> maxRetries")
    case False
    then show ?thesis by (simp add: retryLoop.simps)
  next
    case le: True
    show ?thesis
    proof (cases "operation n")
      case (Inr v)
      with le show ?thesis by (simp add: retryLoop_success)
    next
      case (Inl e)
      show ?thesis
      proof (cases "isTransient (retryMsg e) \<and> attempt < maxRetries")
        case True
        with le Inl "1.IH" [of e] show ?thesis by (simp add: retryLoop_again)
      next
        case False
        with le Inl show ?thesis by (auto simp: retryLoop_rethrow)
      qed
    qed
  qed
qed

lemma retryLoop_all_fail:
  "\<forall>i. n \<le> i \<and> i \<le> n + (maxRetries - attempt) \<longrightarrow> isl (operation i) \<Longrightarrow>
   isl (outcome (retryLoop operation maxRetries baseDelay attempt lastError n ws))"
proof (induction operation maxRetries baseDelay attempt lastError n ws rule: retryLoop.induct)
  case (1 operation maxRetries baseDelay attempt lastError n ws)
  show ?case
  proof (cases "attempt \<le> maxRetries")
    case False
    then show ?thesis by (simp add: retryLoop.simps)
  next
    case le: True
    from "1.prems" obtain e where e: "operation n = Inl e" by (auto simp: isl_def)
    show ?thesis
    proof (cases "isTransient (retryMsg e) \<and> attempt < maxRetries")
      case True
      have "isl (outcome (retryLoop operation maxRetries baseDelay (attempt + 1) e (n + 1)
          (ws @ [baseDelay * 2 ^ attempt])))"
        using le e True "1.prems" by (intro "1.IH") auto
      with True e show ?thesis by (simp add: retryLoop_again)
    next
      case False
      with le e show ?thesis by (auto simp: retryLoop_rethrow)
    qed
  qed
qed


lemma retryLoop_terminal:
  assumes "\<forall>i. a \<le> i \<and> i < k \<longrightarrow> (\<exists>e. operation i = Inl e \<and> isTransient (retryMsg e))"
    and "operation k = Inl e" and "\<not> isTransient (retryMsg e) \<or> k = maxRetries"
    and "a \<le> k" and "k \<le> maxRetries"
  shows "retryLoop operation maxRetries baseDelay a lastError a ws =
           \<lparr>outcome = Inl e, calls = k + 1, sleeps = ws @ backoff baseDelay a k\<rparr>"
  using assms
proof (induction "k - a" arbitrary: a lastError ws)
  case 0
  then have "a = k" by simp
  with 0 show ?case by (simp add: retryLoop_rethrow backoff_def)
next
  case (Suc d)
  then have lt: "a < k" by simp
  with Suc.prems obtain e' where e': "operation a = Inl e'" "isTransient (retryMsg e')"
    by blast
  have step: "retryLoop operation maxRetries baseDelay a lastError a ws =
      retryLoop operation maxRetries baseDelay (Suc a) e' (Suc a) (ws @ [baseDelay * 2 ^ a])"
    using lt Suc.prems(5) e' by (simp add: retryLoop_again)
  have "retryLoop operation maxRetries baseDelay (Suc a) e' (Suc a) (ws @ [baseDelay * 2 ^ a]) =
      \<lparr>outcome = Inl e, calls = k + 1,
        sleeps = (ws @ [baseDelay * 2 ^ a]) @ backoff baseDelay (Suc a) k\<rparr>"
  proof (rule Suc.hyps(1))
    show "d = k - Suc a" using Suc.hyps(2) by simp
    show "\<forall>i. Suc a \<le> i \<and> i < k \<longrightarrow> (\<exists>e. operation i = Inl e \<and> isTransient (retryMsg e))"
      using Suc.prems(1) by auto
    show "operation k = Inl e" by (rule Suc.prems(2))
    show "\<not> isTransient (retryMsg e) \<or> k = maxRetries" by (rule Suc.prems(3))
    show "Suc a \<le> k" using lt by simp
    show "k \<le> maxRetries" by (rule Suc.prems(5))
  qed
  with step show ?case using backoff_step [OF lt, of baseDelay] by simp
qed

lemma retryLoop_fails_run:
  assumes "isl (outcome (retryLoop operation maxRetries baseDelay a lastError a ws))"
    and "a \<le> maxRetries"
  shows "\<exists>k. a \<le> k \<and> k \<le> maxRetries
           \<and> (\<forall>i. a \<le> i \<and> i < k \<longrightarrow> (\<exists>e. operation i = Inl e \<and> isTransient (retryMsg e)))
           \<and> (\<exists>e. operation k = Inl e \<and> (\<not> isTransient (retryMsg e) \<or> k = maxRetries))"
  using assms
proof (induction "maxRetries - a" arbitrary: a lastError ws rule: less_induct)
  case less
  show ?case
  proof (cases "operation a")
    case (Inr v)
    with less.prems show ?thesis by (simp add: retryLoop_success)
  next
    case (Inl e)
    show ?thesis
    proof (cases "isTransient (retryMsg e) \<and> a < maxRetries")
      case False
      with Inl less.prems(2) have "\<not> isTransient (retryMsg e) \<or> a = maxRetries" by auto
      with Inl less.prems(2) show ?thesis by (intro exI [of _ a]) auto
    next
      case True
      then have step: "retryLoop operation maxRetries baseDelay a lastError a ws =
          retryLoop operation maxRetries baseDelay (Suc a) e (Suc a) (ws @ [baseDelay * 2 ^ a])"
        using Inl by (simp add: retryLoop_again)
      have "\<exists>k. Suc a \<le> k \<and> k \<le> maxRetries
           \<and> (\<forall>i. Suc a \<le> i \<and> i < k \<longrightarrow> (\<exists>e. operation i = Inl e \<and> isTransient (retryMsg e)))
           \<and> (\<exists>e. operation k = Inl e \<and> (\<not> isTransient (retryMsg e) \<or> k = maxRetries))"
      proof (rule less.hyps)
        show "maxRetries - Suc a < maxRetries - a" using True by arith
        show "isl (outcome (retryLoop operation maxRetries baseDelay (Suc a) e (Suc a)
            (ws @ [baseDelay * 2 ^ a])))"
          using less.prems(1) by (simp add: step)
        show "Suc a \<le> maxRetries" using True by simp
      qed
      then obtain k where k: "Suc a \<le> k" "k \<le> maxRetries"
        "\<forall>i. Suc a \<le> i \<and> i < k \<longrightarrow> (\<exists>e. operation i = Inl e \<and> isTransient (retryMsg e))"
        "\<exists>e. operation k = Inl e \<and> (\<not> isTransient (retryMsg e) \<or> k = maxRetries)"
        by blast
      have "\<forall>i. a \<le> i \<and> i < k \<longrightarrow> (\<exists>e. operation i = Inl e \<and> isTransient (retryMsg e))"
      proof (intro allI impI)
        fix i assume i: "a \<le> i \<and> i < k"
        show "\<exists>e. operation i = Inl e \<and> isTransient (retryMsg e)"
        proof (cases "i = a")
          case True
          with Inl \<open>isTransient (retryMsg e) \<and> a < maxRetries\<close> show ?thesis by simp
        next
          case False
          with i have "Suc a \<le> i \<and> i < k" by simp
          with k(3) show ?thesis by blast
        qed
      qed
      with k show ?thesis by (intro exI [of _ k]) auto
    qed
  qed
qed

lemma retryOperation_fails_iff:
  "isl (outcome (retryOperation operation maxRetries baseDelay)) \<longleftrightarrow>
     (\<exists>k \<le> maxRetries.
        (\<forall>i < k. \<exists>e. operation i = Inl e \<and> isTransient (retryMsg e))
        \<and> (\<exists>e. operation k = Inl e \<and> (\<not> isTransient (retryMsg e) \<or> k = maxRetries)))"
proof
  assume "isl (outcome (retryOperation operation maxRetries baseDelay))"
  then have "isl (outcome (retryLoop operation maxRetries baseDelay 0 undefinedValue 0 []))"
    by (simp add: retryOperation_def)
  from retryLoop_fails_run [OF this] show "\<exists>k \<le> maxRetries.
        (\<forall>i < k. \<exists>e. operation i = Inl e \<and> isTransient (retryMsg e))
        \<and> (\<exists>e. operation k = Inl e \<and> (\<not> isTransient (retryMsg e) \<or> k = maxRetries))"
    by auto
next
  assume "\<exists>k \<le> maxRetries.
        (\<forall>i < k. \<exists>e. operation i = Inl e \<and> isTransient (retryMsg e))
        \<and> (\<exists>e. operation k = Inl e \<and> (\<not> isTransient (retryMsg e) \<or> k = maxRetries))"
  then obtain k e where k: "k \<le> maxRetries"
    "\<forall>i < k. \<exists>e. operation i = Inl e \<and> isTransient (retryMsg e)"
    "operation k = Inl e" "\<not> isTransient (retryMsg e) \<or> k = maxRetries"
    by blast
  have "retryLoop operation maxRetries baseDelay 0 undefinedValue 0 [] =
      \<lparr>outcome = Inl e, calls = k + 1, sleeps = [] @ backoff baseDelay 0 k\<rparr>"
    using k by (intro retryLoop_terminal) auto
  then show "isl (outcome (retryOperation operation maxRetries baseDelay))"
    by (simp add: retryOperation_def)
qed

lemma retryOperation_second_success:
  assumes "operation 0 = Inl e" and "isTransient (retryMsg e)" and "0 < maxRetries"
    and "operation 1 = Inr v"
  shows "retryOperation operation maxRetries baseDelay =
           \<lparr>outcome = Inr v, calls = 2, sleeps = [baseDelay]\<rparr>"
proof -
  have "retryLoop operation maxRetries baseDelay 0 undefinedValue 0 [] =
      retryLoop operation maxRetries baseDelay (0 + 1) e (0 + 1) ([] @ [baseDelay * 2 ^ 0])"
    using assms(1-3) by (simp add: retryLoop_again)
  also have "\<dots> = \<lparr>outcome = Inr v, calls = 2, sleeps = [baseDelay]\<rparr>"
    using assms(3,4) by (simp add: retryLoop_success)
  finally show ?thesis by (simp add: retryOperation_def)
qed


lemma retryOperation_first_success:
  "operation 0 = Inr v \<Longrightarrow>
   retryOperation operation maxRetries baseDelay = \<lparr>outcome = Inr v, calls = 1, sleeps = []\<rparr>"
  by (simp add: retryOperation_def retryLoop_success)

lemma retryOperation_first_fatal:
  "operation 0 = Inl e \<Longrightarrow> \<not> isTransient (retryMsg e) \<Longrightarrow>
   retryOperation operation maxRetries baseDelay = \<lparr>outcome = Inl e, calls = 1, sleeps = []\<rparr>"
  by (simp add: retryOperation_def retryLoop_rethrow)

lemma key_settings: "cleanApiKey Unnamed_part_000 (apiKey sampleSettings) \<noteq> []"
  by (simp add: sampleSettings_def trim_def isWhiteSpace_def js_def)

lemma fatal_401: "\<not> isTransient (retryMsg (newError (js ''HTTP 401 Unauthorized'')))"
  by (simp add: isTransient_def retryMsg_def newError_def js_def)

lemma call_serviceDown:
  "outcome (executeGeminiCall Unnamed_part_000 sampleSettings serviceDown ctx) =
     Inl (newError (formatError Unnamed_part_000 (newError (js ''HTTP 401 Unauthorized'')) ctx))"
  using key_settings fatal_401
  by (simp add: executeGeminiCall_outcome retryOperation_first_fatal serviceDown_def
      del: cleanApiKey.simps)

lemma call_serviceReplies:
  "outcome (executeGeminiCall Unnamed_part_000 sampleSettings (serviceReplies t) ctx) =
     Inr \<lparr>responseText = Some t\<rparr>"
  using key_settings
  by (simp add: executeGeminiCall_outcome retryOperation_first_success serviceReplies_def
      del: cleanApiKey.simps)



section \<open>Properties of batch shot inference\<close>

lemma executeGeminiCall_mapped:
  "outcome (executeGeminiCall rv settings
      (\<lambda>ai i. case generateContent ai i of Inl e \<Rightarrow> Inl e | Inr r \<Rightarrow> Inr (f r)) contextName) =
   (case outcome (executeGeminiCall rv settings generateContent contextName) of
      Inl e \<Rightarrow> Inl e | Inr r \<Rightarrow> Inr (f r))"
  by (simp add: executeGeminiCall_outcome retryOperation_def retryLoop_mapped split: sum.splits)

lemma toEntry_null: "toEntry item = None \<longleftrightarrow> item = JNull"
  by (simp add: toEntry_def)

lemma those_toEntry: "those (map toEntry items) = None \<longleftrightarrow> JNull \<in> set items"
proof (induction items)
  case Nil
  then show ?case by simp
next
  case (Cons item items)
  show ?case
  proof (cases "toEntry item")
    case None
    then have "item = JNull" by (simp add: toEntry_null)
    with None show ?thesis by simp
  next
    case (Some e)
    then have "item \<noteq> JNull" using toEntry_null [of item] by auto
    with Some Cons show ?thesis by auto
  qed
qed

lemma those_toEntry_null: "JNull \<in> set items \<Longrightarrow> those (map toEntry items) = None"
  by (simp add: those_toEntry)

lemma batchResult_placeholders:
  "(case parse (stripFences (textOr response (js ''[]''))) of
      Inl e \<Rightarrow> True
    | Inr j \<Rightarrow> \<not> isArray j \<or> (\<exists>items. j = JArray items \<and> JNull \<in> set items)) \<Longrightarrow>
   batchResult parse scripts response = replicate (length scripts) placeholder"
  by (auto simp: batchResult_def Let_def those_toEntry_null split: sum.splits json.splits)

lemma inferBatchPrompts_run:
  "inferBatchPrompts rv parse generateContent scripts settings =
     (case outcome (executeGeminiCall rv settings generateContent ctxBatch) of
        Inl e \<Rightarrow> replicate (length scripts) placeholder
      | Inr response \<Rightarrow> batchResult parse scripts response)"
  by (simp add: inferBatchPrompts_def Let_def executeGeminiCall_mapped split: sum.splits)

lemma textOr_text: "responseText response = Some t \<Longrightarrow> t \<noteq> [] \<Longrightarrow> textOr response dflt = t"
  by (simp add: textOr_def)

lemma textOr_default:
  "responseText response = None \<or> responseText response = Some [] \<Longrightarrow>
   textOr response dflt = dflt"
  by (auto simp: textOr_def)

lemma stripFences_brackets: "stripFences (js ''[]'') = js ''[]''"
  by (simp add: stripFences_def trim_def isWhiteSpace_def js_def)

lemma batchResult_empty_text:
  assumes "responseText response = None \<or> responseText response = Some []"
    and "parse (js ''[]'') = Inr (JArray [])"
  shows "batchResult parse scripts response = []"
  using assms(2) by (simp add: batchResult_def textOr_default [OF assms(1)] stripFences_brackets)

text \<open>
  C3, as the code has it.  For \<open>n\<close> script segments, if the orchestrated request fails
  terminally, or it returns a response with a non-empty text that, with the fences
  stripped, fails to parse, parses to something that is not an array, or parses to an
  array with a \<^verbatim>\<open>null\<close> item, then \<^verbatim>\<open>inferBatchPrompts\<close> returns exactly \<open>n\<close> entries, each
  the placeholder with empty prompt and no active names.  A response whose text is empty
  or missing is read as \<^verbatim>\<open>[]\<close>, and the result is the empty list.
\<close>

theorem inferBatchPrompts_placeholders:
  "((\<exists>e. outcome (executeGeminiCall rv settings generateContent ctxBatch) = Inl e)
      \<or> (\<exists>response t.
            outcome (executeGeminiCall rv settings generateContent ctxBatch) = Inr response
            \<and> responseText response = Some t \<and> t \<noteq> []
            \<and> (case parse (stripFences t) of
                  Inl e \<Rightarrow> True
                | Inr j \<Rightarrow> \<not> isArray j \<or> (\<exists>items. j = JArray items \<and> JNull \<in> set items)))
    \<longrightarrow> inferBatchPrompts rv parse generateContent scripts settings =
          replicate (length scripts) placeholder)
   \<and> ((\<exists>response.
            outcome (executeGeminiCall rv settings generateContent ctxBatch) = Inr response
            \<and> (responseText response = None \<or> responseText response = Some []))
        \<and> parse (js ''[]'') = Inr (JArray [])
    \<longrightarrow> inferBatchPrompts rv parse generateContent scripts settings = [])"
proof (intro conjI impI)
  assume "(\<exists>e. outcome (executeGeminiCall rv settings generateContent ctxBatch) = Inl e)
      \<or> (\<exists>response t.
            outcome (executeGeminiCall rv settings generateContent ctxBatch) = Inr response
            \<and> responseText response = Some t \<and> t \<noteq> []
            \<and> (case parse (stripFences t) of
                  Inl e \<Rightarrow> True
                | Inr j \<Rightarrow> \<not> isArray j \<or> (\<exists>items. j = JArray items \<and> JNull \<in> set items)))"
  then show "inferBatchPrompts rv parse generateContent scripts settings =
      replicate (length scripts) placeholder"
  proof
    assume "\<exists>e. outcome (executeGeminiCall rv settings generateContent ctxBatch) = Inl e"
    then show ?thesis by (auto simp: inferBatchPrompts_run)
  next
    assume "\<exists>response t.
        outcome (executeGeminiCall rv settings generateContent ctxBatch) = Inr response
        \<and> responseText response = Some t \<and> t \<noteq> []
        \<and> (case parse (stripFences t) of
              Inl e \<Rightarrow> True
            | Inr j \<Rightarrow> \<not> isArray j \<or> (\<exists>items. j = JArray items \<and> JNull \<in> set items))"
    then obtain response t where
      r: "outcome (executeGeminiCall rv settings generateContent ctxBatch) = Inr response"
      and t: "responseText response = Some t" "t \<noteq> []"
      and bad: "case parse (stripFences t) of
              Inl e \<Rightarrow> True
            | Inr j \<Rightarrow> \<not> isArray j \<or> (\<exists>items. j = JArray items \<and> JNull \<in> set items)"
      by blast
    from bad have "case parse (stripFences (textOr response (js ''[]''))) of
              Inl e \<Rightarrow> True
            | Inr j \<Rightarrow> \<not> isArray j \<or> (\<exists>items. j = JArray items \<and> JNull \<in> set items)"
      by (simp only: textOr_text [OF t])
    then have "batchResult parse scripts response = replicate (length scripts) placeholder"
      by (rule batchResult_placeholders)
    with r show ?thesis by (simp add: inferBatchPrompts_run)
  qed
next
  assume "(\<exists>response.
            outcome (executeGeminiCall rv settings generateContent ctxBatch) = Inr response
            \<and> (responseText response = None \<or> responseText response = Some []))
        \<and> parse (js ''[]'') = Inr (JArray [])"
  then obtain response where
    r: "outcome (executeGeminiCall rv settings generateContent ctxBatch) = Inr response"
    and e: "responseText response = None \<or> responseText response = Some []"
    and p: "parse (js ''[]'') = Inr (JArray [])"
    by blast
  from e p have "batchResult parse scripts response = []"
    by (rule batchResult_empty_text)
  with r show "inferBatchPrompts rv parse generateContent scripts settings = []"
    by (simp add: inferBatchPrompts_run)
qed

lemma parseSample_brackets: "parseSample (js ''[]'') = Inr (JArray [])"
  by (simp add: parseSample_def)

lemma parseSample_empty: "parseSample [] = Inl (newError (js ''Unexpected token''))"
  by (simp add: parseSample_def js_def)

theorem inferBatchPrompts_placeholders_witness:
  "inferBatchPrompts Unnamed_part_000 parseSample serviceDown
       [js ''one'', js ''two'', js ''three''] sampleSettings = [placeholder, placeholder, placeholder]
   \<and> inferBatchPrompts Unnamed_part_000 parseSample (serviceReplies (js ''not json''))
       [js ''one'', js ''two'', js ''three''] sampleSettings = [placeholder, placeholder, placeholder]
   \<and> inferBatchPrompts Unnamed_part_000 parseSample (serviceReplies (js ''{}''))
       [js ''one'', js ''two'', js ''three''] sampleSettings = [placeholder, placeholder, placeholder]
   \<and> inferBatchPrompts Unnamed_part_000 parseSample (serviceReplies [])
       [js ''one'', js ''two'', js ''three''] sampleSettings = []"
proof -
  let ?S = "[js ''one'', js ''two'', js ''three'']"
  have three: "replicate (length ?S) placeholder = [placeholder, placeholder, placeholder]"
    by (simp add: numeral_3_eq_3)
  note P = inferBatchPrompts_placeholders [THEN conjunct1, rule_format]
  note E = inferBatchPrompts_placeholders [THEN conjunct2, rule_format]
  have a: "\<exists>e. outcome (executeGeminiCall Unnamed_part_000 sampleSettings serviceDown ctxBatch) = Inl e"
    by (simp add: call_serviceDown)
  have b: "\<exists>response t.
      outcome (executeGeminiCall Unnamed_part_000 sampleSettings (serviceReplies (js ''not json''))
        ctxBatch) = Inr response
      \<and> responseText response = Some t \<and> t \<noteq> []
      \<and> (case parseSample (stripFences t) of
            Inl e \<Rightarrow> True
          | Inr j \<Rightarrow> \<not> isArray j \<or> (\<exists>items. j = JArray items \<and> JNull \<in> set items))"
    by (simp add: call_serviceReplies parseSample_def stripFences_def trim_def
        isWhiteSpace_def js_def)
  have c: "\<exists>response t.
      outcome (executeGeminiCall Unnamed_part_000 sampleSettings (serviceReplies (js ''{}''))
        ctxBatch) = Inr response
      \<and> responseText response = Some t \<and> t \<noteq> []
      \<and> (case parseSample (stripFences t) of
            Inl e \<Rightarrow> True
          | Inr j \<Rightarrow> \<not> isArray j \<or> (\<exists>items. j = JArray items \<and> JNull \<in> set items))"
    by (simp add: call_serviceReplies parseSample_def stripFences_def trim_def
        isWhiteSpace_def js_def)
  have d: "(\<exists>response.
      outcome (executeGeminiCall Unnamed_part_000 sampleSettings (serviceReplies []) ctxBatch)
        = Inr response
      \<and> (responseText response = None \<or> responseText response = Some []))
      \<and> parseSample (js ''[]'') = Inr (JArray [])"
    by (simp add: call_serviceReplies parseSample_brackets)
  have "inferBatchPrompts Unnamed_part_000 parseSample serviceDown ?S sampleSettings =
      replicate (length ?S) placeholder"
    using a by (intro P) blast
  moreover have "inferBatchPrompts Unnamed_part_000 parseSample (serviceReplies (js ''not json''))
      ?S sampleSettings = replicate (length ?S) placeholder"
    using b by (intro P) blast
  moreover have "inferBatchPrompts Unnamed_part_000 parseSample (serviceReplies (js ''{}''))
      ?S sampleSettings = replicate (length ?S) placeholder"
    using c by (intro P) blast
  moreover have "inferBatchPrompts Unnamed_part_000 parseSample (serviceReplies [])
      ?S sampleSettings = []"
    using d by (rule E)
  ultimately show ?thesis unfolding three by blast
qed

text \<open>
  C3, as the specification states it, fails: the empty text is not valid JSON, but for a
  reply with an empty text and three segments the result is the empty list, not three
  placeholders.
\<close>

theorem inferBatchPrompts_empty_reply:
  "parseSample [] = Inl (newError (js ''Unexpected token''))
   \<and> inferBatchPrompts Unnamed_part_000 parseSample (serviceReplies [])
       [js ''one'', js ''two'', js ''three''] sampleSettings = []
   \<and> inferBatchPrompts Unnamed_part_000 parseSample (serviceReplies [])
       [js ''one'', js ''two'', js ''three''] sampleSettings
       \<noteq> [placeholder, placeholder, placeholder]"
proof -
  have "batchResult parseSample [js ''one'', js ''two'', js ''three'']
      \<lparr>responseText = Some []\<rparr> = []"
    by (rule batchResult_empty_text) (simp_all add: parseSample_brackets)
  then have "inferBatchPrompts Unnamed_part_000 parseSample (serviceReplies [])
      [js ''one'', js ''two'', js ''three''] sampleSettings = []"
    by (simp add: inferBatchPrompts_run call_serviceReplies)
  then show ?thesis by (simp add: parseSample_empty)
qed




section \<open>Properties of script breakdown\<close>

lemma splitOn_nonempty: "splitOn sep s \<noteq> []"
  by (induction s) (auto split: list.splits)

lemma splitOn_no_separator: "\<forall>l \<in> set (splitOn sep s). sep \<notin> set l"
  by (induction s) (auto split: list.splits)

lemma joinWith_splitOn: "joinWith sep (splitOn sep s) = s"
proof (induction s)
  case Nil
  then show ?case by simp
next
  case (Cons c cs)
  obtain l ls where split: "splitOn sep cs = l # ls"
    using splitOn_nonempty [of sep cs] by (cases "splitOn sep cs") auto
  with Cons show ?case by (cases ls) auto
qed

lemma breakdownOperation_fails:
  "breakdownOperation parse generateContent ai i = Inl e \<longleftrightarrow>
     generateContent ai i = Inl e
     \<or> (\<exists>response. generateContent ai i = Inr response
           \<and> parse (stripFences (textOr response (js ''[]''))) = Inl e)"
  by (cases "generateContent ai i") (simp_all add: breakdownOperation_def)

lemma executeGeminiCall_fails_iff:
  "(\<exists>e. outcome (executeGeminiCall rv settings operation contextName) = Inl e) \<longleftrightarrow>
     cleanApiKey rv (apiKey settings) = []
     \<or> (\<exists>k \<le> 3.
          (\<forall>i < k. \<exists>e. operation (theClient rv settings) i = Inl e \<and> isTransient (retryMsg e))
          \<and> (\<exists>e. operation (theClient rv settings) k = Inl e
                \<and> (\<not> isTransient (retryMsg e) \<or> k = 3)))"
proof -
  have "(\<exists>e. outcome (executeGeminiCall rv settings operation contextName) = Inl e) \<longleftrightarrow>
      cleanApiKey rv (apiKey settings) = []
      \<or> isl (outcome (retryOperation (operation (theClient rv settings)) 3 2000))"
    by (auto simp: executeGeminiCall_outcome isl_def split: sum.splits)
  then show ?thesis by (simp only: retryOperation_fails_iff)
qed

text \<open>
  C8, as the code has it.  When the orchestrated call fails terminally, \<^verbatim>\<open>breakdownScript\<close>
  returns the lines of the script, split at the newline characters, without the blank
  ones, in their order; when the call succeeds, it returns what the call returns.  The call
  fails terminally exactly when the credential is empty, or the first \<open>k \<le> 3\<close> requests
  fail with transient-marked errors and the next one fails with an error that is not
  transient-marked or is the fourth request.  A request fails when the service throws, or
  when the text of its reply (an empty or missing text is read as \<^verbatim>\<open>[]\<close>), with the fences
  stripped, is not valid JSON; the error is then the one the parser throws, so an invalid
  reply is retried when that error carries a transient marker.
\<close>

theorem breakdownScript_fallback:
  "((\<exists>e. outcome (executeGeminiCall rv settings
              (breakdownOperation parse generateContent) ctxBreakdown) = Inl e) \<longleftrightarrow>
      cleanApiKey rv (apiKey settings) = []
      \<or> (\<exists>k \<le> 3.
           (\<forall>i < k. \<exists>e. breakdownOperation parse generateContent (theClient rv settings) i = Inl e
                        \<and> isTransient (retryMsg e))
           \<and> (\<exists>e. breakdownOperation parse generateContent (theClient rv settings) k = Inl e
                 \<and> (\<not> isTransient (retryMsg e) \<or> k = 3))))
   \<and> (\<forall>i e. breakdownOperation parse generateContent (theClient rv settings) i = Inl e \<longleftrightarrow>
          generateContent (theClient rv settings) i = Inl e
          \<or> (\<exists>response. generateContent (theClient rv settings) i = Inr response
                \<and> parse (stripFences (textOr response (js ''[]''))) = Inl e))
   \<and> ((\<exists>e. outcome (executeGeminiCall rv settings
              (breakdownOperation parse generateContent) ctxBreakdown) = Inl e) \<longrightarrow>
        breakdownScript rv parse generateContent scriptText settings =
          JArray (map JString (filter (\<lambda>l. trim l \<noteq> []) (splitOn 0x0A scriptText))))
   \<and> (\<forall>v. outcome (executeGeminiCall rv settings
              (breakdownOperation parse generateContent) ctxBreakdown) = Inr v \<longrightarrow>
        breakdownScript rv parse generateContent scriptText settings = v)
   \<and> subseq (filter (\<lambda>l. trim l \<noteq> []) (splitOn 0x0A scriptText)) (splitOn 0x0A scriptText)"
proof (intro conjI)
  show "(\<exists>e. outcome (executeGeminiCall rv settings
              (breakdownOperation parse generateContent) ctxBreakdown) = Inl e) \<longleftrightarrow>
      cleanApiKey rv (apiKey settings) = []
      \<or> (\<exists>k \<le> 3.
           (\<forall>i < k. \<exists>e. breakdownOperation parse generateContent (theClient rv settings) i = Inl e
                        \<and> isTransient (retryMsg e))
           \<and> (\<exists>e. breakdownOperation parse generateContent (theClient rv settings) k = Inl e
                 \<and> (\<not> isTransient (retryMsg e) \<or> k = 3)))"
    by (rule executeGeminiCall_fails_iff)
  show "\<forall>i e. breakdownOperation parse generateContent (theClient rv settings) i = Inl e \<longleftrightarrow>
          generateContent (theClient rv settings) i = Inl e
          \<or> (\<exists>response. generateContent (theClient rv settings) i = Inr response
                \<and> parse (stripFences (textOr response (js ''[]''))) = Inl e)"
    by (intro allI) (rule breakdownOperation_fails)
  show "(\<exists>e. outcome (executeGeminiCall rv settings
              (breakdownOperation parse generateContent) ctxBreakdown) = Inl e) \<longrightarrow>
        breakdownScript rv parse generateContent scriptText settings =
          JArray (map JString (filter (\<lambda>l. trim l \<noteq> []) (splitOn 0x0A scriptText)))"
    by (auto simp: breakdownScript_def fallbackLines_def)
  show "\<forall>v. outcome (executeGeminiCall rv settings
              (breakdownOperation parse generateContent) ctxBreakdown) = Inr v \<longrightarrow>
        breakdownScript rv parse generateContent scriptText settings = v"
    by (simp add: breakdownScript_def)
  show "subseq (filter (\<lambda>l. trim l \<noteq> []) (splitOn 0x0A scriptText)) (splitOn 0x0A scriptText)"
    by simp
qed

lemma sample_lines:
  "filter (\<lambda>l. trim l \<noteq> []) (splitOn 0x0A sampleScript) = [js ''INT. ROOM'', js ''She waves.'']"
  by (simp add: sampleScript_def trim_def isWhiteSpace_def js_def)

lemma not_transient_unexpected: "\<not> isTransient (retryMsg (newError (js ''Unexpected token'')))"
  by (simp add: isTransient_def retryMsg_def newError_def js_def)

theorem breakdownScript_fallback_witness:
  "breakdownScript Unnamed_part_000 parseSample (serviceReplies (js ''not json'')) sampleScript
     sampleSettings = JArray [JString (js ''INT. ROOM''), JString (js ''She waves.'')]
   \<and> breakdownScript Unnamed_part_000 parseSample serviceDown sampleScript
     sampleSettings = JArray [JString (js ''INT. ROOM''), JString (js ''She waves.'')]"
proof -
  let ?ai = "theClient Unnamed_part_000 sampleSettings"
  note T1 = breakdownScript_fallback [of Unnamed_part_000 sampleSettings parseSample
      "serviceReplies (js ''not json'')" sampleScript]
  note T2 = breakdownScript_fallback [of Unnamed_part_000 sampleSettings parseSample
      serviceDown sampleScript]
  have a: "breakdownOperation parseSample (serviceReplies (js ''not json'')) ?ai 0 =
      Inl (newError (js ''Unexpected token''))"
    by (simp add: breakdownOperation_def serviceReplies_def textOr_def parseSample_def
        stripFences_def trim_def isWhiteSpace_def js_def)
  have b: "breakdownOperation parseSample serviceDown ?ai 0 =
      Inl (newError (js ''HTTP 401 Unauthorized''))"
    by (simp add: breakdownOperation_def serviceDown_def)
  have "\<exists>k \<le> 3.
      (\<forall>i < k. \<exists>e. breakdownOperation parseSample (serviceReplies (js ''not json'')) ?ai i = Inl e
                   \<and> isTransient (retryMsg e))
      \<and> (\<exists>e. breakdownOperation parseSample (serviceReplies (js ''not json'')) ?ai k = Inl e
            \<and> (\<not> isTransient (retryMsg e) \<or> k = 3))"
    using a not_transient_unexpected by (intro exI [of _ 0]) simp
  with T1 have "\<exists>e. outcome (executeGeminiCall Unnamed_part_000 sampleSettings
      (breakdownOperation parseSample (serviceReplies (js ''not json''))) ctxBreakdown) = Inl e"
    by blast
  with T1 have r1: "breakdownScript Unnamed_part_000 parseSample (serviceReplies (js ''not json''))
      sampleScript sampleSettings =
      JArray (map JString (filter (\<lambda>l. trim l \<noteq> []) (splitOn 0x0A sampleScript)))"
    by blast
  have "\<exists>k \<le> 3.
      (\<forall>i < k. \<exists>e. breakdownOperation parseSample serviceDown ?ai i = Inl e
                   \<and> isTransient (retryMsg e))
      \<and> (\<exists>e. breakdownOperation parseSample serviceDown ?ai k = Inl e
            \<and> (\<not> isTransient (retryMsg e) \<or> k = 3))"
    using b fatal_401 by (intro exI [of _ 0]) simp
  with T2 have "\<exists>e. outcome (executeGeminiCall Unnamed_part_000 sampleSettings
      (breakdownOperation parseSample serviceDown) ctxBreakdown) = Inl e"
    by blast
  with T2 have r2: "breakdownScript Unnamed_part_000 parseSample serviceDown
      sampleScript sampleSettings =
      JArray (map JString (filter (\<lambda>l. trim l \<noteq> []) (splitOn 0x0A sampleScript)))"
    by blast
  from r1 r2 show ?thesis by (simp add: sample_lines)
qed

text \<open>
  C8, as the specification states it, fails.  The reply \<^verbatim>\<open>Error 429\<close> is not valid JSON,
  but the error of a parser that quotes it carries the marker 429: the request is sent
  again, and the parsed value of the second reply is returned after two requests.  And a
  reply with an empty text, which is not valid JSON either, is read as \<^verbatim>\<open>[]\<close>.
\<close>

theorem breakdownScript_retried_reply:
  "parseQuoting (stripFences (js ''Error 429'')) =
     Inl (newError (js ''Unexpected token in JSON: Error 429''))
   \<and> breakdownScript Unnamed_part_000 parseQuoting
       (serviceRepliesThen (js ''Error 429'') (js ''[]'')) sampleScript sampleSettings = JArray []
   \<and> calls (executeGeminiCall Unnamed_part_000 sampleSettings
       (breakdownOperation parseQuoting (serviceRepliesThen (js ''Error 429'') (js ''[]'')))
       ctxBreakdown) = 2
   \<and> parseSample [] = Inl (newError (js ''Unexpected token''))
   \<and> breakdownScript Unnamed_part_000 parseSample (serviceReplies []) sampleScript
       sampleSettings = JArray []
   \<and> JArray [] \<noteq> JArray (map JString (fallbackLines sampleScript))"
proof -
  let ?ai = "theClient Unnamed_part_000 sampleSettings"
  let ?op = "breakdownOperation parseQuoting (serviceRepliesThen (js ''Error 429'') (js ''[]''))"
  have p: "parseQuoting (stripFences (js ''Error 429'')) =
      Inl (newError (js ''Unexpected token in JSON: Error 429''))"
    by (simp add: parseQuoting_def stripFences_def trim_def isWhiteSpace_def js_def)
  have o0: "?op ?ai 0 = Inl (newError (js ''Unexpected token in JSON: Error 429''))"
    by (simp add: breakdownOperation_def serviceRepliesThen_def textOr_def parseQuoting_def
        stripFences_def trim_def isWhiteSpace_def js_def)
  have o1: "?op ?ai 1 = Inr (JArray [])"
    by (simp add: breakdownOperation_def serviceRepliesThen_def textOr_def parseQuoting_def
        stripFences_def trim_def isWhiteSpace_def js_def)
  have tr: "isTransient (retryMsg (newError (js ''Unexpected token in JSON: Error 429'')))"
    by (simp add: isTransient_def retryMsg_def newError_def js_def)
  have run: "retryOperation (?op ?ai) 3 2000 =
      \<lparr>outcome = Inr (JArray []), calls = 2, sleeps = [2000]\<rparr>"
    using o0 tr _ o1 by (rule retryOperation_second_success) simp
  have ex: "executeGeminiCall Unnamed_part_000 sampleSettings ?op ctxBreakdown =
      \<lparr>outcome = Inr (JArray []), calls = 2, sleeps = [2000]\<rparr>"
    using key_settings run
    by (simp add: executeGeminiCall_def theClient_def Let_def del: cleanApiKey.simps)
  have r: "breakdownScript Unnamed_part_000 parseQuoting
      (serviceRepliesThen (js ''Error 429'') (js ''[]'')) sampleScript sampleSettings = JArray []"
    by (simp add: breakdownScript_def ex)
  have e0: "breakdownOperation parseSample (serviceReplies []) ?ai 0 = Inr (JArray [])"
    by (simp add: breakdownOperation_def serviceReplies_def textOr_def parseSample_def
        stripFences_brackets)
  have e: "breakdownScript Unnamed_part_000 parseSample (serviceReplies []) sampleScript
      sampleSettings = JArray []"
    using key_settings e0
    by (simp add: breakdownScript_def executeGeminiCall_outcome retryOperation_first_success
        del: cleanApiKey.simps)
  have ne: "JArray [] \<noteq> JArray (map JString (fallbackLines sampleScript))"
    by (simp add: fallbackLines_def sampleScript_def trim_def isWhiteSpace_def js_def)
  from p r ex e ne show ?thesis by (simp add: parseSample_empty)
qed




end
